theory Spec2Isabelle
  imports Main "HOL-Library.Word" "HOL-Library.Signed_Division" "HOL-Library.Sublist"
begin

section \<open>The object pool of container/pool/pool.go\<close>

text \<open>
  The pool is modelled sequentially: every operation runs from its first to its last
  statement with no other operation in between. The pool struct is a record, the callbacks
  are functions on an outside world of type \<open>'w\<close> (what \<open>NewFunc\<close> and \<open>ExpireFunc\<close>
  do is not known to the pool; they are assumed not to call back into it), and the wall
  clock is a sequence of readings \<open>clk 0\<close>, \<open>clk 1\<close>, ... consumed one per call of
  \<open>vtime.TimestampMilli\<close>.
\<close>

subsection \<open>Values, errors and 64-bit integers\<close>

type_synonym int64 = "64 word"

text \<open>Go's \<open>interface{}\<close>: \<open>nil\<close> or a payload.\<close>

datatype 'v iface = nil | Val 'v

text \<open>Go's \<open>error\<close> values built by \<open>errors.New\<close>.\<close>

datatype error = errors_New string

abbreviation PoolClosed :: error where
  "PoolClosed \<equiv> errors_New ''pool is closed''"

abbreviation PoolEmpty :: error where
  "PoolEmpty \<equiv> errors_New ''pool is empty''"

text \<open>Go's \<open>/\<close> on \<open>int64\<close> truncates towards zero and wraps.\<close>

definition div64 :: "int64 \<Rightarrow> int64 \<Rightarrow> int64" where
  "div64 a b = word_of_int (sint a sdiv sint b)"

text \<open>\<open>time.Duration\<close> is an \<open>int64\<close> count of nanoseconds.\<close>

definition Nanoseconds :: "int64 \<Rightarrow> int64" where
  "Nanoseconds d = d"

subsection \<open>The struct and its environment\<close>

record 'v poolItem =
  expire :: int64
  value_p :: "'v iface"

record ('v, 'w) Pool =
  list_p :: "'v poolItem list"
  closed :: bool
  TTL :: int64
  NewFunc :: "('w \<Rightarrow> ('v iface \<times> error option) \<times> 'w) option"
  ExpireFunc :: "('v iface \<Rightarrow> 'w \<Rightarrow> 'w) option"

text \<open>
  What lies outside the struct: the world the callbacks act on, and the number of clock
  readings taken so far.
\<close>

record 'w env =
  world :: 'w
  ticks :: nat

definition TimestampMilli :: "(nat \<Rightarrow> int64) \<Rightarrow> 'w env \<Rightarrow> int64 \<times> 'w env" where
  \<comment> \<open>Modelled from the spec: \<open>utils/os/time\<close> is not among the sources; section 6 of
      the spec names a millisecond-resolution wall-clock time source. A call takes the
      next reading of the clock.\<close>
  "TimestampMilli clk e = (clk (ticks e), e\<lparr>ticks := Suc (ticks e)\<rparr>)"

subsection \<open>The item store\<close>

definition PushBack :: "'a \<Rightarrow> 'a list \<Rightarrow> 'a list" where
  \<comment> \<open>Modelled from the spec: \<open>utils/container/list\<close> is not among the sources; section 4.1
      of the spec gives \<open>PushBack\<close> as appending to the sequence.\<close>
  "PushBack x xs = xs @ [x]"

definition PushFront :: "'a \<Rightarrow> 'a list \<Rightarrow> 'a list" where
  \<comment> \<open>Modelled from the spec: \<open>utils/container/list\<close> is not among the sources; section 4.1
      of the spec gives \<open>PushFront\<close> as inserting at the front.\<close>
  "PushFront x xs = x # xs"

definition PopFront :: "'a list \<Rightarrow> 'a option \<times> 'a list" where
  \<comment> \<open>Modelled from the spec: \<open>utils/container/list\<close> is not among the sources; section 4.1
      of the spec gives \<open>PopFront\<close> as removing and returning the frontmost item, or
      signalling that the store is empty (Go's \<open>nil\<close>, here \<open>None\<close>).\<close>
  "PopFront xs = (case xs of [] \<Rightarrow> (None, []) | x # rest \<Rightarrow> (Some x, rest))"

definition RemoveAll :: "'a list \<Rightarrow> 'a list" where
  \<comment> \<open>Modelled from the spec: \<open>utils/container/list\<close> is not among the sources; section 4.1
      of the spec gives \<open>RemoveAll\<close> as emptying the store.\<close>
  "RemoveAll xs = []"

definition Len :: "'a list \<Rightarrow> nat" where
  \<comment> \<open>Modelled from the spec: \<open>utils/container/list\<close> is not among the sources; section 4.1
      of the spec gives \<open>Len\<close> as the current count.\<close>
  "Len xs = length xs"

subsection \<open>New, Put, Clear, Get, Size, Close\<close>

text \<open>
  \<open>New\<close> takes the variadic \<open>expireFunc\<close> as a list and uses its first element.
  \<open>list.New\<close> gives the empty store and \<open>vtype.NewBool\<close> the flag \<open>false\<close> (section 3 of
  the spec: the closed flag goes from false to true only). The registration of the sweep
  with the timer is outside the struct.
\<close>

definition New ::
  "int64 \<Rightarrow> ('w \<Rightarrow> ('v iface \<times> error option) \<times> 'w) option
     \<Rightarrow> ('v iface \<Rightarrow> 'w \<Rightarrow> 'w) option list \<Rightarrow> ('v, 'w) Pool" where
  "New ttl newFunc expireFunc =
     \<lparr>list_p = [], closed = False, TTL = ttl, NewFunc = newFunc,
      ExpireFunc = (case expireFunc of [] \<Rightarrow> None | f # _ \<Rightarrow> f)\<rparr>"

definition Put ::
  "(nat \<Rightarrow> int64) \<Rightarrow> 'v iface \<Rightarrow> ('v, 'w) Pool \<Rightarrow> 'w env
     \<Rightarrow> error option \<times> ('v, 'w) Pool \<times> 'w env" where
  "Put clk v p e =
     (if closed p then (Some PoolClosed, p, e)
      else if TTL p = 0 then
        (None, p\<lparr>list_p := PushBack \<lparr>expire = 0, value_p = v\<rparr> (list_p p)\<rparr>, e)
      else
        (let (now, e') = TimestampMilli clk e;
             item = \<lparr>expire = now + div64 (Nanoseconds (TTL p)) 1000000, value_p = v\<rparr>
         in (None, p\<lparr>list_p := PushBack item (list_p p)\<rparr>, e')))"

text \<open>
  The loop of \<open>Clear\<close> (and of the closed branch of the sweep): pop the front item and hand
  its value to \<open>ExpireFunc\<close>, until \<open>PopFront\<close> finds the store empty. The two equations
  are the two results of \<open>PopFront\<close>.
\<close>

fun drain :: "('v iface \<Rightarrow> 'w \<Rightarrow> 'w) \<Rightarrow> 'v poolItem list \<Rightarrow> 'w \<Rightarrow> 'v poolItem list \<times> 'w" where
  "drain f [] w = ([], w)"
| "drain f (r # rest) w = drain f rest (f (value_p r) w)"

definition Clear :: "('v, 'w) Pool \<Rightarrow> 'w env \<Rightarrow> ('v, 'w) Pool \<times> 'w env" where
  "Clear p e =
     (case ExpireFunc p of
        Some f \<Rightarrow>
          (let (xs, w) = drain f (list_p p) (world e)
           in (p\<lparr>list_p := xs\<rparr>, e\<lparr>world := w\<rparr>))
      | None \<Rightarrow> (p\<lparr>list_p := RemoveAll (list_p p)\<rparr>, e))"

text \<open>
  The loop of \<open>Get\<close> on an open pool. The clock is read only when \<open>expire\<close> is not 0
  (Go's \<open>||\<close> short-circuits). The result is the value found, if any, with the store and
  the environment the loop leaves behind.
\<close>

fun Get_loop ::
  "(nat \<Rightarrow> int64) \<Rightarrow> 'v poolItem list \<Rightarrow> 'w env
     \<Rightarrow> 'v iface option \<times> 'v poolItem list \<times> 'w env" where
  "Get_loop clk [] e = (None, [], e)"
| "Get_loop clk (f # rest) e =
     (if expire f = 0 then (Some (value_p f), rest, e)
      else
        (let (now, e') = TimestampMilli clk e
         in if now <s expire f then (Some (value_p f), rest, e')
            else Get_loop clk rest e'))"

text \<open>
  \<open>Get\<close> returns Go's pair of a value and an error. The closed flag cannot change while a
  sequential \<open>Get\<close> runs, so the loop condition is tested once.
\<close>

definition Get ::
  "(nat \<Rightarrow> int64) \<Rightarrow> ('v, 'w) Pool \<Rightarrow> 'w env
     \<Rightarrow> ('v iface \<times> error option) \<times> ('v, 'w) Pool \<times> 'w env" where
  "Get clk p e =
     (let (r, xs, e1) = (if closed p then (None, list_p p, e) else Get_loop clk (list_p p) e);
          p1 = p\<lparr>list_p := xs\<rparr>
      in case r of
           Some v \<Rightarrow> ((v, None), p1, e1)
         | None \<Rightarrow>
             (case NewFunc p of
                Some f \<Rightarrow> (let (res, w) = f (world e1) in (res, p1, e1\<lparr>world := w\<rparr>))
              | None \<Rightarrow> ((nil, Some PoolEmpty), p1, e1)))"

definition Size :: "('v, 'w) Pool \<Rightarrow> nat" where
  "Size p = Len (list_p p)"

definition Close :: "('v, 'w) Pool \<Rightarrow> ('v, 'w) Pool" where
  "Close p = p\<lparr>closed := True\<rparr>"

subsection \<open>The sweep\<close>

datatype job = Registered | Exited

definition timer_Exit :: job where
  \<comment> \<open>Modelled from the spec: \<open>utils/os/timer\<close> is not among the sources. Section 4.3 of the
      spec gives \<open>timer.Exit\<close> as the terminal transition of the recurring task: the task
      is deregistered and the invocation that called it ends there (its step 2 starts
      with "Else (pool still open)").\<close>
  "timer_Exit = Exited"

text \<open>
  The expiration pass against the captured \<open>timestampMilli\<close>, with \<open>latestExpire\<close> as the
  loop carries it. When the store is empty both exits of the loop leave it empty.
\<close>

fun expire_loop ::
  "('v iface \<Rightarrow> 'w \<Rightarrow> 'w) option \<Rightarrow> int64 \<Rightarrow> int64 \<Rightarrow> 'v poolItem list \<Rightarrow> 'w
     \<Rightarrow> 'v poolItem list \<times> 'w" where
  "expire_loop ef timestampMilli latestExpire [] w = ([], w)"
| "expire_loop ef timestampMilli latestExpire (item # rest) w =
     (if timestampMilli <s latestExpire then (item # rest, w)
      else if timestampMilli <s expire item then (PushFront item rest, w)
      else expire_loop ef timestampMilli (expire item) rest
             (case ef of Some f \<Rightarrow> f (value_p item) w | None \<Rightarrow> w))"

definition checkExpireItems ::
  "(nat \<Rightarrow> int64) \<Rightarrow> ('v, 'w) Pool \<Rightarrow> 'w env \<Rightarrow> job \<times> ('v, 'w) Pool \<times> 'w env" where
  "checkExpireItems clk p e =
     (if closed p then
        (case ExpireFunc p of
           Some f \<Rightarrow>
             (let (xs, w) = drain f (list_p p) (world e)
              in (timer_Exit, p\<lparr>list_p := xs\<rparr>, e\<lparr>world := w\<rparr>))
         | None \<Rightarrow> (timer_Exit, p, e))
      else if TTL p = 0 then (Registered, p, e)
      else
        (let (timestampMilli, e1) = TimestampMilli clk e;
             (xs, w) = expire_loop (ExpireFunc p) timestampMilli (- 1) (list_p p) (world e1)
         in (Registered, p\<lparr>list_p := xs\<rparr>, e1\<lparr>world := w\<rparr>)))"

subsection \<open>Histories\<close>

text \<open>
  What can happen to a pool after \<open>New\<close>: the caller's operations and the timer's sweeps,
  one after another in any order. \<open>step\<close> keeps the pool and the environment an operation
  leaves behind; \<open>run\<close> performs a list of them.
\<close>

datatype 'v op = OpPut "'v iface" | OpGet | OpClear | OpSize | OpClose | OpSweep

fun step ::
  "(nat \<Rightarrow> int64) \<Rightarrow> 'v op \<Rightarrow> ('v, 'w) Pool \<times> 'w env \<Rightarrow> ('v, 'w) Pool \<times> 'w env" where
  "step clk (OpPut v) (p, e) = snd (Put clk v p e)"
| "step clk OpGet (p, e) = snd (Get clk p e)"
| "step clk OpClear (p, e) = Clear p e"
| "step clk OpSize (p, e) = (p, e)"
| "step clk OpClose (p, e) = (Close p, e)"
| "step clk OpSweep (p, e) = snd (checkExpireItems clk p e)"

definition run ::
  "(nat \<Rightarrow> int64) \<Rightarrow> 'v op list \<Rightarrow> ('v, 'w) Pool \<times> 'w env \<Rightarrow> ('v, 'w) Pool \<times> 'w env" where
  "run clk ops s = fold (step clk) ops s"

text \<open>
  Every stored item is already due at the next clock reading, the TTL is the given one
  and at least \<open>n0\<close> readings have been taken.
\<close>

definition all_stale ::
  "(nat \<Rightarrow> int64) \<Rightarrow> int64 \<Rightarrow> nat \<Rightarrow> ('v, 'w) Pool \<times> 'w env \<Rightarrow> bool" where
  "all_stale clk ttl n0 s =
     (TTL (fst s) = ttl \<and> n0 \<le> ticks (snd s) \<and>
      (\<forall>x \<in> set (list_p (fst s)). sint (expire x) \<le> sint (clk (ticks (snd s)))))"

subsection \<open>Clocks and callbacks used to state and exercise the properties\<close>

text \<open>A clock never runs backwards: later readings are not smaller, as signed numbers.\<close>

definition clock_mono :: "(nat \<Rightarrow> int64) \<Rightarrow> bool" where
  "clock_mono clk = (\<forall>i j. i \<le> j \<longrightarrow> clk i \<le>s clk j)"

text \<open>A clock that stands still, and a clock given by its first readings.\<close>

definition steady :: "int64 \<Rightarrow> nat \<Rightarrow> int64" where
  "steady t n = t"

definition readings :: "int64 list \<Rightarrow> nat \<Rightarrow> int64" where
  "readings ts n = (if n < length ts then ts ! n else last ts)"

text \<open>
  A destruction callback that records the values it is given, in order, and a
  construction callback that numbers the values it makes.
\<close>

definition record_value :: "'v iface \<Rightarrow> 'v iface list \<Rightarrow> 'v iface list" where
  "record_value v log = log @ [v]"

definition count_up :: "nat \<Rightarrow> (nat iface \<times> error option) \<times> nat" where
  "count_up w = ((Val w, None), Suc w)"

section \<open>Auxiliary facts\<close>

subsection \<open>The loops\<close>

text \<open>
  The recursive functions are the loops of the source: each unfolds to one round of the
  loop body, written with \<open>PopFront\<close> as the source has it.
\<close>

lemma drain_loop_body:
  "drain f xs w =
     (case PopFront xs of
        (Some r, rest) \<Rightarrow> drain f rest (f (value_p r) w)
      | (None, rest) \<Rightarrow> (rest, w))"
  by (cases xs) (simp_all add: PopFront_def)

lemma Get_loop_body:
  "Get_loop clk xs e =
     (case PopFront xs of
        (Some f, rest) \<Rightarrow>
          (if expire f = 0 then (Some (value_p f), rest, e)
           else
             (let (now, e') = TimestampMilli clk e
              in if now <s expire f then (Some (value_p f), rest, e')
                 else Get_loop clk rest e'))
      | (None, rest) \<Rightarrow> (None, rest, e))"
  by (cases xs) (simp_all add: PopFront_def)

lemma expire_loop_body:
  "expire_loop ef ts latestExpire xs w =
     (if ts <s latestExpire then (xs, w)
      else
        (case PopFront xs of
           (Some item, rest) \<Rightarrow>
             (if ts <s expire item then (PushFront item rest, w)
              else expire_loop ef ts (expire item) rest
                     (case ef of Some f \<Rightarrow> f (value_p item) w | None \<Rightarrow> w))
         | (None, rest) \<Rightarrow> (rest, w)))"
  by (cases xs) (simp_all add: PopFront_def)

lemma drain_fold:
  "drain f xs w = ([], fold (\<lambda>it. f (value_p it)) xs w)"
  by (induction xs arbitrary: w) simp_all

lemma Get_loop_none:
  "\<forall>i<length xs. expire (xs ! i) \<noteq> 0 \<and> \<not> clk (ticks e + i) <s expire (xs ! i) \<Longrightarrow>
   Get_loop clk xs e = (None, [], e\<lparr>ticks := ticks e + length xs\<rparr>)"
proof (induction xs arbitrary: e)
  case Nil
  then show ?case by simp
next
  case (Cons f rest)
  from Cons.prems have hd: "expire f \<noteq> 0" "\<not> clk (ticks e) <s expire f"
    by force+
  have "\<forall>i<length rest. expire (rest ! i) \<noteq> 0 \<and>
          \<not> clk (ticks (e\<lparr>ticks := Suc (ticks e)\<rparr>) + i) <s expire (rest ! i)"
  proof (intro allI impI)
    fix i assume "i < length rest"
    then have "Suc i < length (f # rest)" by simp
    with Cons.prems have "expire ((f # rest) ! Suc i) \<noteq> 0 \<and>
          \<not> clk (ticks e + Suc i) <s expire ((f # rest) ! Suc i)" by blast
    then show "expire (rest ! i) \<noteq> 0 \<and>
          \<not> clk (ticks (e\<lparr>ticks := Suc (ticks e)\<rparr>) + i) <s expire (rest ! i)" by simp
  qed
  from Cons.IH [OF this] hd show ?case
    by (simp add: TimestampMilli_def)
qed

lemma Get_loop_None_empty:
  "Get_loop clk xs e = (None, ys, e1) \<Longrightarrow> ys = [] \<and> world e1 = world e"
  by (induction xs arbitrary: e) (auto simp: TimestampMilli_def split: if_splits)

lemma Get_loop_suffix:
  "Get_loop clk xs e = (r, ys, e1) \<Longrightarrow> suffix ys xs \<and> world e1 = world e"
  by (induction xs arbitrary: e) (auto simp: TimestampMilli_def suffix_Cons split: if_splits)

lemma expire_loop_eq:
  "\<not> ts <s le \<Longrightarrow>
   expire_loop ef ts le xs w =
     (dropWhile (\<lambda>it. \<not> ts <s expire it) xs,
      case ef of Some f \<Rightarrow> fold (\<lambda>it. f (value_p it)) (takeWhile (\<lambda>it. \<not> ts <s expire it) xs) w
               | None \<Rightarrow> w)"
  by (induction xs arbitrary: le w) (auto simp: PushFront_def split: option.splits)

lemma fold_record_value:
  "fold (\<lambda>it. record_value (value_p it)) xs log0 = log0 @ map value_p xs"
  by (induction xs arbitrary: log0) (simp_all add: record_value_def)

lemma Get_front_zero:
  "\<not> closed p \<Longrightarrow> list_p p = it # rest \<Longrightarrow> expire it = 0 \<Longrightarrow>
   Get clk p e = ((value_p it, None), p\<lparr>list_p := rest\<rparr>, e)"
  by (simp add: Get_def)

lemma Get_front_live:
  "\<not> closed p \<Longrightarrow> list_p p = it # rest \<Longrightarrow> expire it \<noteq> 0 \<Longrightarrow>
   clk (ticks e) <s expire it \<Longrightarrow>
   Get clk p e = ((value_p it, None), p\<lparr>list_p := rest\<rparr>, e\<lparr>ticks := Suc (ticks e)\<rparr>)"
  by (simp add: Get_def TimestampMilli_def)

lemma Get_front_expired:
  "\<not> closed p \<Longrightarrow> list_p p = it # rest \<Longrightarrow> expire it \<noteq> 0 \<Longrightarrow>
   \<not> clk (ticks e) <s expire it \<Longrightarrow>
   Get clk p e = Get clk (p\<lparr>list_p := rest\<rparr>) (e\<lparr>ticks := Suc (ticks e)\<rparr>)"
  by (simp add: Get_def TimestampMilli_def Let_def split: prod.splits option.splits)

lemma sweep_front_expired:
  assumes "\<not> closed p" "TTL p \<noteq> 0" "list_p p = gone @ rest"
    and "\<forall>x \<in> set gone. \<not> clk (ticks e) <s expire x"
    and "\<not> clk (ticks e) <s - 1"
  shows "checkExpireItems clk p e =
           checkExpireItems clk (p\<lparr>list_p := rest\<rparr>)
             (e\<lparr>world := (case ExpireFunc p of
                              Some f \<Rightarrow> fold (\<lambda>it. f (value_p it)) gone (world e)
                            | None \<Rightarrow> world e)\<rparr>)"
  using assms
  by (simp add: checkExpireItems_def TimestampMilli_def expire_loop_eq dropWhile_append
      takeWhile_append split: option.splits)

lemma Put_open_nonzero:
  "\<not> closed p \<Longrightarrow> TTL p \<noteq> 0 \<Longrightarrow>
   Put clk v p e =
     (None,
      p\<lparr>list_p := list_p p @
          [\<lparr>expire = clk (ticks e) + div64 (Nanoseconds (TTL p)) 1000000, value_p = v\<rparr>]\<rparr>,
      e\<lparr>ticks := Suc (ticks e)\<rparr>)"
  by (simp add: Put_def PushBack_def TimestampMilli_def)

lemma Get_store_suffix:
  "suffix (list_p (fst (snd (Get clk p e)))) (list_p p)"
proof -
  obtain r ys e2 where loop: "Get_loop clk (list_p p) e = (r, ys, e2)"
    by (cases "Get_loop clk (list_p p) e") auto
  then have "suffix ys (list_p p)" using Get_loop_suffix by blast
  with loop show ?thesis
    by (cases r; cases "NewFunc p") (auto simp: Get_def Let_def split: prod.splits)
qed

subsection \<open>Signed 64-bit arithmetic\<close>

lemma sint_word_of_int_64:
  "- (2 ^ 63) \<le> k \<Longrightarrow> k < 2 ^ 63 \<Longrightarrow> sint (word_of_int k :: int64) = k"
  by (simp add: sint_sbintrunc' signed_take_bit_int_eq_self)

lemma sint_add_nowrap:
  fixes a b :: int64
  assumes "- (2 ^ 63) \<le> sint a + sint b" "sint a + sint b < 2 ^ 63"
  shows "sint (a + b) = sint a + sint b"
proof -
  have "a + b = word_of_int (sint a + sint b)" by simp
  then show ?thesis using assms sint_word_of_int_64 by metis
qed

lemma sint_bounds_64:
  fixes a :: int64
  shows "- (2 ^ 63) \<le> sint a" "sint a < 2 ^ 63"
  using sint_ge [of a] sint_lt [of a] by simp_all

lemma sdiv_nonneg: "0 \<le> (k::int) \<Longrightarrow> 0 < l \<Longrightarrow> k sdiv l = k div l"
  by (simp add: signed_divide_int_def sgn_if)

lemma sdiv_neg: "(k::int) < 0 \<Longrightarrow> 0 < l \<Longrightarrow> k sdiv l = - ((- k) div l)"
  by (simp add: signed_divide_int_def sgn_if)

lemma sint_div64_pos:
  assumes "0 <s d"
  shows "sint (div64 (Nanoseconds d) 1000000) = sint d div 1000000"
proof -
  from assms have pos: "0 < sint d" by (simp add: word_sless_alt)
  have "sint d div 1000000 \<le> sint d" using pos by (rule int_div_le_self)
  moreover have "0 \<le> sint d div 1000000" using pos by (simp add: pos_imp_zdiv_nonneg_iff)
  ultimately have "- (2 ^ 63) \<le> sint d div 1000000" "sint d div 1000000 < 2 ^ 63"
    using sint_bounds_64 [of d] by linarith+
  then show ?thesis
    using pos by (simp add: div64_def Nanoseconds_def sdiv_nonneg sint_word_of_int_64)
qed

lemma sint_div64_neg:
  assumes "d <s 0"
  shows "sint (div64 (Nanoseconds d) 1000000) = - ((- sint d) div 1000000)"
proof -
  from assms have neg: "sint d < 0" by (simp add: word_sless_alt)
  have "(- sint d) div 1000000 \<le> - sint d" using neg by (simp add: int_div_le_self)
  moreover have "0 \<le> (- sint d) div 1000000" using neg by (simp add: pos_imp_zdiv_nonneg_iff)
  ultimately have "- (2 ^ 63) \<le> - ((- sint d) div 1000000)" "- ((- sint d) div 1000000) < 2 ^ 63"
    using sint_bounds_64 [of d] by linarith+
  moreover have "sint d sdiv sint (1000000 :: int64) = - ((- sint d) div 1000000)"
    using neg by (simp add: sdiv_neg)
  ultimately show ?thesis
    unfolding div64_def Nanoseconds_def by (simp only: sint_word_of_int_64)
qed

lemma div64_sub_milli:
  assumes "0 <s d" "d <s 1000000"
  shows "div64 (Nanoseconds d) 1000000 = 0"
proof -
  from assms have "0 < sint d" "sint d < 1000000" by (simp_all add: word_sless_alt)
  then show ?thesis by (simp add: div64_def Nanoseconds_def sdiv_nonneg)
qed


subsection \<open>Clocks\<close>

lemma clock_monoD:
  "clock_mono clk \<Longrightarrow> i \<le> j \<Longrightarrow> sint (clk i) \<le> sint (clk j)"
  by (simp add: clock_mono_def word_sle_eq)

lemma clock_mono_steady: "clock_mono (steady t)"
  by (simp add: clock_mono_def steady_def)

lemma clock_mono_example: "clock_mono (readings [1000, 1000, 1001])"
  by (auto simp: clock_mono_def readings_def less_Suc_eq numeral_3_eq_3)

subsection \<open>What every operation keeps\<close>

text \<open>
  No operation changes the TTL or takes a clock reading back, and only \<open>Put\<close> adds an
  item. On a pool with a negative TTL, under a clock that never runs backwards and reads
  a positive time, every item is therefore due from the moment it is stored, whatever
  the history.
\<close>

lemma Get_loop_ticks:
  "Get_loop clk xs e = (r, ys, e1) \<Longrightarrow> ticks e \<le> ticks e1"
proof (induction xs arbitrary: e)
  case Nil
  then show ?case by simp
next
  case (Cons f rest)
  show ?case
  proof (cases "expire f = 0 \<or> clk (ticks e) <s expire f")
    case True
    with Cons.prems show ?thesis
      by (auto simp: TimestampMilli_def split: if_splits)
  next
    case False
    with Cons.prems have "Get_loop clk rest (e\<lparr>ticks := Suc (ticks e)\<rparr>) = (r, ys, e1)"
      by (simp add: TimestampMilli_def)
    from Cons.IH [OF this] show ?thesis by simp
  qed
qed

lemma Get_frame:
  assumes "Get clk p e = (res, p', e')"
  shows "TTL p' = TTL p \<and> closed p' = closed p \<and> ticks e \<le> ticks e' \<and>
         set (list_p p') \<subseteq> set (list_p p)"
proof -
  obtain r ys e1 where loop: "Get_loop clk (list_p p) e = (r, ys, e1)"
    by (cases "Get_loop clk (list_p p) e") auto
  then have t: "ticks e \<le> ticks e1" by (rule Get_loop_ticks)
  from assms have p': "p' = fst (snd (Get clk p e))" by simp
  have "suffix (list_p p') (list_p p)" unfolding p' by (rule Get_store_suffix)
  then have sub: "set (list_p p') \<subseteq> set (list_p p)" by (rule set_mono_suffix)
  from assms loop t have "TTL p' = TTL p \<and> closed p' = closed p \<and> ticks e \<le> ticks e'"
    by (cases r; cases "NewFunc p"; cases "closed p")
       (auto simp: Get_def Let_def split: prod.splits)
  with sub show ?thesis by simp
qed

lemma expire_loop_subset:
  "set (fst (expire_loop ef ts le xs w)) \<subseteq> set xs"
  by (induction xs arbitrary: le w) (auto simp: PushFront_def)

lemma sweep_frame:
  assumes "checkExpireItems clk p e = (j, p', e')"
  shows "TTL p' = TTL p \<and> closed p' = closed p \<and> ticks e \<le> ticks e' \<and>
         set (list_p p') \<subseteq> set (list_p p)"
proof (cases "closed p")
  case True
  with assms show ?thesis
    by (cases "ExpireFunc p") (auto simp: checkExpireItems_def drain_fold)
next
  case False
  show ?thesis
  proof (cases "TTL p = 0")
    case True
    with False assms show ?thesis by (auto simp: checkExpireItems_def)
  next
    case nz: False
    obtain xs w where l: "expire_loop (ExpireFunc p) (clk (ticks e)) (- 1) (list_p p) (world e)
        = (xs, w)"
      by (cases "expire_loop (ExpireFunc p) (clk (ticks e)) (- 1) (list_p p) (world e)") auto
    have "set (fst (expire_loop (ExpireFunc p) (clk (ticks e)) (- 1) (list_p p) (world e)))
        \<subseteq> set (list_p p)"
      by (rule expire_loop_subset)
    with l have "set xs \<subseteq> set (list_p p)" by simp
    with False nz assms l show ?thesis
      by (auto simp: checkExpireItems_def TimestampMilli_def)
  qed
qed

lemma negative_TTL_expire:
  assumes "ttl <s 0" and "0 < sint t"
  shows "sint (t + div64 (Nanoseconds ttl) 1000000) = sint t - (- sint ttl) div 1000000"
    and "sint (t + div64 (Nanoseconds ttl) 1000000) \<le> sint t"
proof -
  from assms(1) have neg: "sint ttl < 0" by (simp add: word_sless_alt)
  define k where "k = (- sint ttl) div 1000000"
  have ms: "sint (div64 (Nanoseconds ttl) 1000000) = - k"
    unfolding k_def using assms(1) by (rule sint_div64_neg)
  have k0: "0 \<le> k"
    unfolding k_def using neg by (simp add: pos_imp_zdiv_nonneg_iff)
  have "k \<le> - sint ttl"
    unfolding k_def using neg by (simp add: int_div_le_self)
  then have kb: "k \<le> 2 ^ 63"
    using sint_bounds_64(1) [of ttl] by linarith
  have "sint (t + div64 (Nanoseconds ttl) 1000000)
          = sint t + sint (div64 (Nanoseconds ttl) 1000000)"
    using assms(2) ms k0 kb sint_bounds_64(2) [of t]
    by (intro sint_add_nowrap) simp_all
  with ms have eq: "sint (t + div64 (Nanoseconds ttl) 1000000) = sint t - k" by simp
  then show "sint (t + div64 (Nanoseconds ttl) 1000000) = sint t - (- sint ttl) div 1000000"
    unfolding k_def .
  from eq k0 show "sint (t + div64 (Nanoseconds ttl) 1000000) \<le> sint t" by linarith
qed

lemma step_all_stale:
  assumes neg: "ttl <s 0" and mono: "clock_mono clk" and pos: "0 < sint (clk n0)"
    and inv: "all_stale clk ttl n0 s"
  shows "all_stale clk ttl n0 (step clk op s)"
proof -
  obtain p e where s: "s = (p, e)" by (cases s)
  from inv s have ttl: "TTL p = ttl" and n0: "n0 \<le> ticks e"
    and st: "\<forall>x \<in> set (list_p p). sint (expire x) \<le> sint (clk (ticks e))"
    by (simp_all add: all_stale_def)
  have keep: "all_stale clk ttl n0 (p', e')"
    if "TTL p' = TTL p" "ticks e \<le> ticks e'" "set (list_p p') \<subseteq> set (list_p p)" for p' e'
  proof -
    from mono that(2) have "sint (clk (ticks e)) \<le> sint (clk (ticks e'))"
      by (rule clock_monoD)
    with st that(3) have "\<forall>x \<in> set (list_p p'). sint (expire x) \<le> sint (clk (ticks e'))"
      by fastforce
    with that(1,2) ttl n0 show ?thesis by (simp add: all_stale_def)
  qed
  show ?thesis
  proof (cases op)
    case (OpPut v)
    show ?thesis
    proof (cases "closed p")
      case True
      with inv s OpPut show ?thesis by (simp add: Put_def)
    next
      case False
      from neg ttl have nz: "TTL p \<noteq> 0" by auto
      from mono n0 have "sint (clk n0) \<le> sint (clk (ticks e))" by (rule clock_monoD)
      with pos have tpos: "0 < sint (clk (ticks e))" by linarith
      have new: "sint (clk (ticks e) + div64 (Nanoseconds ttl) 1000000) \<le> sint (clk (ticks e))"
        using neg tpos by (rule negative_TTL_expire(2))
      from mono have up: "sint (clk (ticks e)) \<le> sint (clk (Suc (ticks e)))"
        by (rule clock_monoD) simp
      from st up have old: "\<forall>x \<in> set (list_p p). sint (expire x) \<le> sint (clk (Suc (ticks e)))"
        by fastforce
      from False nz s OpPut ttl n0 new up old show ?thesis
        by (simp add: Put_open_nonzero all_stale_def)
    qed
  next
    case OpGet
    obtain res p' e' where g: "Get clk p e = (res, p', e')"
      by (cases "Get clk p e") auto
    from Get_frame [OF g] have "all_stale clk ttl n0 (p', e')" by (intro keep) simp_all
    with g s OpGet show ?thesis by simp
  next
    case OpClear
    have "all_stale clk ttl n0 (Clear p e)"
      using ttl n0 by (cases "ExpireFunc p") (simp_all add: Clear_def drain_fold RemoveAll_def all_stale_def)
    with s OpClear show ?thesis by simp
  next
    case OpSize
    with inv s show ?thesis by simp
  next
    case OpClose
    with inv s show ?thesis by (simp add: Close_def all_stale_def)
  next
    case OpSweep
    obtain j p' e' where g: "checkExpireItems clk p e = (j, p', e')"
      by (cases "checkExpireItems clk p e") auto
    from sweep_frame [OF g] have "all_stale clk ttl n0 (p', e')" by (intro keep) simp_all
    with g s OpSweep show ?thesis by simp
  qed
qed

lemma run_all_stale:
  assumes "ttl <s 0" and "clock_mono clk" and "0 < sint (clk n0)"
    and "all_stale clk ttl n0 s"
  shows "all_stale clk ttl n0 (run clk ops s)"
  using assms(4) unfolding run_def
  by (induction ops arbitrary: s) (simp_all add: step_all_stale [OF assms(1-3)])

lemma New_all_stale: "all_stale clk ttl (ticks e0) (New ttl nf efs, e0)"
  by (simp add: all_stale_def New_def)

lemma sweep_all_stale:
  assumes "\<not> closed q" and "TTL q \<noteq> 0" and "\<not> clk (ticks e2) <s - 1"
    and "\<forall>x \<in> set (list_p q). \<not> clk (ticks e2) <s expire x"
  shows "checkExpireItems clk q e2 =
           (Registered, q\<lparr>list_p := []\<rparr>,
            e2\<lparr>ticks := Suc (ticks e2),
               world := (case ExpireFunc q of
                           Some f \<Rightarrow> fold (\<lambda>it. f (value_p it)) (list_p q) (world e2)
                         | None \<Rightarrow> world e2)\<rparr>)"
proof -
  from assms(4) have tw: "takeWhile (\<lambda>it. \<not> clk (ticks e2) <s expire it) (list_p q) = list_p q"
    by (simp add: takeWhile_eq_all_conv)
  from assms(4) have dw: "dropWhile (\<lambda>it. \<not> clk (ticks e2) <s expire it) (list_p q) = []"
    by simp
  from assms(1-3) show ?thesis
    by (simp add: checkExpireItems_def TimestampMilli_def expire_loop_eq tw dw
        split: option.splits)
qed

section \<open>Properties\<close>

subsection \<open>Put on a closed and on an open pool\<close>

text \<open>
  C7. On a pool whose closed flag is set, \<open>Put\<close> fails with \<open>PoolClosed\<close> and leaves the
  pool (so the item store) and the environment as they were. On an open pool it returns
  no error and the store is the old store with exactly one item, wrapping the value, added
  at the back; nothing else of the pool changes.
\<close>

theorem Put_closed_or_append:
  "(closed p \<longrightarrow> Put clk v p e = (Some PoolClosed, p, e)) \<and>
   (\<not> closed p \<longrightarrow>
      (case Put clk v p e of (r, p', e') \<Rightarrow>
         r = None \<and>
         length (list_p p') = Suc (length (list_p p)) \<and>
         butlast (list_p p') = list_p p \<and>
         value_p (last (list_p p')) = v \<and>
         p'\<lparr>list_p := list_p p\<rparr> = p \<and>
         world e' = world e))"
  by (simp add: Put_def PushBack_def TimestampMilli_def Let_def)

theorem Put_closed_or_append_witness:
  "Put (steady 1000) (Val (7::nat)) ((New 0 None []) \<lparr>closed := True\<rparr>) \<lparr>world = (), ticks = 0\<rparr>
     = (Some PoolClosed, (New 0 None []) \<lparr>closed := True\<rparr>, \<lparr>world = (), ticks = 0\<rparr>) \<and>
   (case Put (steady 1000) (Val (7::nat)) (New 5000000 None []) \<lparr>world = (), ticks = 0\<rparr> of
      (r, p', e') \<Rightarrow> r = None \<and> length (list_p p') = 1 \<and> value_p (last (list_p p')) = Val 7)"
  using Put_closed_or_append [of "(New 0 None []) \<lparr>closed := True\<rparr>" "steady 1000" "Val (7::nat)"
      "\<lparr>world = (), ticks = 0\<rparr>"]
    Put_closed_or_append [of "New 5000000 None []" "steady 1000" "Val (7::nat)"
      "\<lparr>world = (), ticks = 0\<rparr>"]
  by (simp add: New_def steady_def split: prod.splits)

subsection \<open>Clear\<close>

text \<open>
  C8. With an \<open>ExpireFunc\<close>, \<open>Clear\<close> leaves the store empty and the world is the old
  world after \<open>ExpireFunc\<close> has been applied to the value of every stored item, once
  each, from the front to the back; with the recording callback the record grows by
  exactly the stored values. Without an \<open>ExpireFunc\<close> the store is emptied and the world
  is untouched. After \<open>Put(a); Put(b); Clear()\<close> on a new pool with the recording callback
  the record has gained \<open>a\<close> and \<open>b\<close>, once each, and the store is empty.
\<close>

theorem Clear_destructs_each_once:
  "Clear p e =
     (p\<lparr>list_p := []\<rparr>,
      case ExpireFunc p of
        Some f \<Rightarrow> e\<lparr>world := fold (\<lambda>it. f (value_p it)) (list_p p) (world e)\<rparr>
      | None \<Rightarrow> e) \<and>
   Clear (q\<lparr>ExpireFunc := Some record_value\<rparr>) l =
     (q\<lparr>ExpireFunc := Some record_value, list_p := []\<rparr>,
      l\<lparr>world := world l @ map value_p (list_p q)\<rparr>) \<and>
   (case Put clk a (New ttl nf [Some record_value]) l of (r1, p1, l1) \<Rightarrow>
      case Put clk b p1 l1 of (r2, p2, l2) \<Rightarrow>
        case Clear p2 l2 of (p3, l3) \<Rightarrow>
          r1 = None \<and> r2 = None \<and> map value_p (list_p p2) = [a, b] \<and>
          list_p p3 = [] \<and> world l3 = world l @ [a, b])"
proof (intro conjI)
  show "Clear p e =
     (p\<lparr>list_p := []\<rparr>,
      case ExpireFunc p of
        Some f \<Rightarrow> e\<lparr>world := fold (\<lambda>it. f (value_p it)) (list_p p) (world e)\<rparr>
      | None \<Rightarrow> e)"
    by (simp add: Clear_def drain_fold RemoveAll_def split: option.splits)
  show "Clear (q\<lparr>ExpireFunc := Some record_value\<rparr>) l =
     (q\<lparr>ExpireFunc := Some record_value, list_p := []\<rparr>,
      l\<lparr>world := world l @ map value_p (list_p q)\<rparr>)"
    by (simp add: Clear_def drain_fold fold_record_value)
  show "case Put clk a (New ttl nf [Some record_value]) l of (r1, p1, l1) \<Rightarrow>
      case Put clk b p1 l1 of (r2, p2, l2) \<Rightarrow>
        case Clear p2 l2 of (p3, l3) \<Rightarrow>
          r1 = None \<and> r2 = None \<and> map value_p (list_p p2) = [a, b] \<and>
          list_p p3 = [] \<and> world l3 = world l @ [a, b]"
    by (simp add: Clear_def drain_fold fold_record_value Put_def New_def
        PushBack_def TimestampMilli_def Let_def record_value_def)
qed

subsection \<open>Get when the loop returns no stored item\<close>

text \<open>
  C5. Let the pool have a \<open>NewFunc\<close>. When the pool is closed, \<open>Get\<close> returns exactly what
  \<open>NewFunc\<close> returns and leaves the pool as it was. When the open pool's loop ends without
  a stored item, the store is empty at that point, \<open>Get\<close> returns exactly what \<open>NewFunc\<close>
  returns and the store stays empty. \<open>New(ttl, fn)\<close> followed by \<open>Get\<close> returns the result
  of \<open>fn\<close> and the store is still empty. In every case the store after \<open>Get\<close> is a
  suffix of the store before it: \<open>Get\<close> inserts nothing.
\<close>

theorem Get_delegates_to_NewFunc:
  assumes "NewFunc p = Some f"
  shows "(closed p \<longrightarrow>
            Get clk p e = (fst (f (world e)), p, e\<lparr>world := snd (f (world e))\<rparr>)) \<and>
         (\<not> closed p \<and> Get_loop clk (list_p p) e = (None, xs, e1) \<longrightarrow>
            xs = [] \<and> world e1 = world e \<and>
            Get clk p e = (fst (f (world e)), p\<lparr>list_p := []\<rparr>, e1\<lparr>world := snd (f (world e))\<rparr>)) \<and>
         Get clk (New ttl (Some f) efs) e
           = (fst (f (world e)), New ttl (Some f) efs, e\<lparr>world := snd (f (world e))\<rparr>) \<and>
         suffix (list_p (fst (snd (Get clk p e)))) (list_p p)"
proof (intro conjI impI)
  assume "closed p"
  with assms show "Get clk p e = (fst (f (world e)), p, e\<lparr>world := snd (f (world e))\<rparr>)"
    by (simp add: Get_def split: prod.splits)
next
  assume a: "\<not> closed p \<and> Get_loop clk (list_p p) e = (None, xs, e1)"
  then show "xs = []" and "world e1 = world e"
    using Get_loop_None_empty by blast+
  with a assms show "Get clk p e
      = (fst (f (world e)), p\<lparr>list_p := []\<rparr>, e1\<lparr>world := snd (f (world e))\<rparr>)"
    by (simp add: Get_def split: prod.splits)
next
  show "Get clk (New ttl (Some f) efs) e
           = (fst (f (world e)), New ttl (Some f) efs, e\<lparr>world := snd (f (world e))\<rparr>)"
    by (simp add: Get_def New_def split: prod.splits)
next
  show "suffix (list_p (fst (snd (Get clk p e)))) (list_p p)"
    by (rule Get_store_suffix)
qed

theorem Get_delegates_to_NewFunc_witness:
  "Get (steady 1000)
       \<lparr>list_p = [\<lparr>expire = 0, value_p = Val 9\<rparr>], closed = True, TTL = 0,
         NewFunc = Some count_up, ExpireFunc = None\<rparr>
       \<lparr>world = 3, ticks = 0\<rparr>
     = ((Val 3, None),
        \<lparr>list_p = [\<lparr>expire = 0, value_p = Val 9\<rparr>], closed = True, TTL = 0,
          NewFunc = Some count_up, ExpireFunc = None\<rparr>,
        \<lparr>world = 4, ticks = 0\<rparr>) \<and>
   Get (steady 1000)
       \<lparr>list_p = [\<lparr>expire = 500, value_p = Val 9\<rparr>], closed = False, TTL = 5000000,
         NewFunc = Some count_up, ExpireFunc = None\<rparr>
       \<lparr>world = 3, ticks = 0\<rparr>
     = ((Val 3, None),
        \<lparr>list_p = [], closed = False, TTL = 5000000,
          NewFunc = Some count_up, ExpireFunc = None\<rparr>,
        \<lparr>world = 4, ticks = 1\<rparr>)"
  using Get_delegates_to_NewFunc
    [where p = "\<lparr>list_p = [\<lparr>expire = 0, value_p = Val 9\<rparr>], closed = True, TTL = 0,
         NewFunc = Some count_up, ExpireFunc = None\<rparr>"
       and f = count_up and clk = "steady 1000" and e = "\<lparr>world = 3, ticks = 0\<rparr>"]
    Get_delegates_to_NewFunc
    [where p = "\<lparr>list_p = [\<lparr>expire = 500, value_p = Val 9\<rparr>], closed = False, TTL = 5000000,
         NewFunc = Some count_up, ExpireFunc = None\<rparr>"
       and f = count_up and clk = "steady 1000" and e = "\<lparr>world = 3, ticks = 0\<rparr>"
       and xs = "[]" and ?e1.0 = "\<lparr>world = 3, ticks = 1\<rparr>"]
  by (simp add: count_up_def steady_def TimestampMilli_def)

subsection \<open>Get without a construction callback\<close>

text \<open>
  C6. Let the pool have no \<open>NewFunc\<close>. If the pool is open and no stored item passes the
  validity check (each has a nonzero \<open>expire\<close> that is not above the clock reading taken
  for it), \<open>Get\<close> returns \<open>nil\<close> with \<open>PoolEmpty\<close>, having dropped every item. On a closed
  pool \<open>Get\<close> returns \<open>PoolEmpty\<close> as well. \<open>New(ttl, nil)\<close> followed by \<open>Get\<close> returns
  \<open>PoolEmpty\<close>. \<open>Get\<close> is a total function: it returns at once in every case.
\<close>

theorem Get_PoolEmpty_without_NewFunc:
  assumes "NewFunc p = None"
  shows "(\<not> closed p \<and>
          (\<forall>i<length (list_p p). expire (list_p p ! i) \<noteq> 0 \<and>
                \<not> clk (ticks e + i) <s expire (list_p p ! i)) \<longrightarrow>
            Get clk p e = ((nil, Some PoolEmpty), p\<lparr>list_p := []\<rparr>,
                           e\<lparr>ticks := ticks e + length (list_p p)\<rparr>)) \<and>
         (closed p \<longrightarrow> Get clk p e = ((nil, Some PoolEmpty), p, e)) \<and>
         Get clk (New ttl None efs) e = ((nil, Some PoolEmpty), New ttl None efs, e)"
  using assms by (simp add: Get_def New_def Get_loop_none)

theorem Get_PoolEmpty_without_NewFunc_witness:
  "Get (readings [1000, 1001])
       \<lparr>list_p = [\<lparr>expire = 500, value_p = Val (9::nat)\<rparr>, \<lparr>expire = 1001, value_p = Val 8\<rparr>],
         closed = False, TTL = 5000000, NewFunc = None, ExpireFunc = None\<rparr>
       \<lparr>world = (), ticks = 0\<rparr>
     = ((nil, Some PoolEmpty),
        \<lparr>list_p = [], closed = False, TTL = 5000000, NewFunc = None, ExpireFunc = None\<rparr>,
        \<lparr>world = (), ticks = 2\<rparr>) \<and>
   Get (steady 1000)
       \<lparr>list_p = [\<lparr>expire = 0, value_p = Val (9::nat)\<rparr>],
         closed = True, TTL = 0, NewFunc = None, ExpireFunc = None\<rparr>
       \<lparr>world = (), ticks = 0\<rparr>
     = ((nil, Some PoolEmpty),
        \<lparr>list_p = [\<lparr>expire = 0, value_p = Val 9\<rparr>],
          closed = True, TTL = 0, NewFunc = None, ExpireFunc = None\<rparr>,
        \<lparr>world = (), ticks = 0\<rparr>)"
proof -
  let ?p = "\<lparr>list_p = [\<lparr>expire = 500, value_p = Val (9::nat)\<rparr>, \<lparr>expire = 1001, value_p = Val 8\<rparr>],
         closed = False, TTL = 5000000, NewFunc = None, ExpireFunc = None\<rparr> :: (nat, unit) Pool"
  let ?q = "\<lparr>list_p = [\<lparr>expire = 0, value_p = Val (9::nat)\<rparr>],
         closed = True, TTL = 0, NewFunc = None, ExpireFunc = None\<rparr> :: (nat, unit) Pool"
  let ?e = "\<lparr>world = (), ticks = 0\<rparr>"
  have np: "NewFunc ?p = None" and nq: "NewFunc ?q = None"
    by simp_all
  have stale: "\<not> closed ?p \<and>
      (\<forall>i<length (list_p ?p). expire (list_p ?p ! i) \<noteq> 0 \<and>
         \<not> readings [1000, 1001] (ticks ?e + i) <s expire (list_p ?p ! i))"
    by (simp add: readings_def less_Suc_eq)
  have cq: "closed ?q"
    by simp
  from Get_PoolEmpty_without_NewFunc [OF np, where clk = "readings [1000, 1001]" and e = ?e]
  have "Get (readings [1000, 1001]) ?p ?e
          = ((nil, Some PoolEmpty), ?p\<lparr>list_p := []\<rparr>,
             ?e\<lparr>ticks := ticks ?e + length (list_p ?p)\<rparr>)"
    using stale by blast
  moreover
  from Get_PoolEmpty_without_NewFunc [OF nq, where clk = "steady 1000" and e = ?e]
  have "Get (steady 1000) ?q ?e = ((nil, Some PoolEmpty), ?q, ?e)"
    using cq by blast
  ultimately show ?thesis
    by simp
qed

subsection \<open>The expiration pass of an open pool\<close>

text \<open>
  C9. On an open pool with a nonzero TTL the sweep reads the clock once (the reading is
  taken not to lie before the epoch by more than a millisecond). Split the store into the
  items \<open>gone\<close> in front, none of which has \<open>expire\<close> above that reading, and the rest
  \<open>kept\<close>, which is empty or starts with an item whose \<open>expire\<close> is above it. The sweep
  hands the values of \<open>gone\<close> to \<open>ExpireFunc\<close> (if there is one), once each and in order,
  and leaves exactly \<open>kept\<close> in the store: the first live item is back at the front and
  nothing behind it has been touched. The job stays registered.
\<close>

theorem sweep_pass_stops_at_first_live_item:
  assumes "\<not> closed p" and "TTL p \<noteq> 0"
    and "\<not> clk (ticks e) <s - 1"
    and "list_p p = gone @ kept"
    and "\<forall>x \<in> set gone. \<not> clk (ticks e) <s expire x"
    and "case kept of [] \<Rightarrow> True | it # _ \<Rightarrow> clk (ticks e) <s expire it"
  shows "checkExpireItems clk p e =
           (Registered, p\<lparr>list_p := kept\<rparr>,
            e\<lparr>ticks := Suc (ticks e),
              world := (case ExpireFunc p of
                          Some f \<Rightarrow> fold (\<lambda>it. f (value_p it)) gone (world e)
                        | None \<Rightarrow> world e)\<rparr>)"
proof -
  let ?P = "\<lambda>it. \<not> clk (ticks e) <s expire it"
  from assms(5) have "dropWhile ?P (gone @ kept) = dropWhile ?P kept"
    by (simp add: dropWhile_append)
  also from assms(6) have "dropWhile ?P kept = kept"
    by (cases kept) simp_all
  finally have dw: "dropWhile ?P (list_p p) = kept" using assms(4) by simp
  from assms(5) have "takeWhile ?P (gone @ kept) = gone @ takeWhile ?P kept"
    by (simp add: takeWhile_append)
  also from assms(6) have "takeWhile ?P kept = []"
    by (cases kept) simp_all
  finally have tw: "takeWhile ?P (list_p p) = gone" using assms(4) by simp
  show ?thesis
    using assms(1-3) dw tw
    by (simp add: checkExpireItems_def TimestampMilli_def expire_loop_eq split: option.splits)
qed

theorem sweep_pass_stops_at_first_live_item_witness:
  "checkExpireItems (steady 1000)
       \<lparr>list_p = [\<lparr>expire = 900, value_p = Val (1::nat)\<rparr>, \<lparr>expire = 1000, value_p = Val 2\<rparr>,
                  \<lparr>expire = 2000, value_p = Val 3\<rparr>, \<lparr>expire = 950, value_p = Val 4\<rparr>],
         closed = False, TTL = 5000000, NewFunc = None, ExpireFunc = Some record_value\<rparr>
       \<lparr>world = [], ticks = 0\<rparr>
     = (Registered,
        \<lparr>list_p = [\<lparr>expire = 2000, value_p = Val 3\<rparr>, \<lparr>expire = 950, value_p = Val 4\<rparr>],
          closed = False, TTL = 5000000, NewFunc = None, ExpireFunc = Some record_value\<rparr>,
        \<lparr>world = [Val 1, Val 2], ticks = 1\<rparr>)"
  using sweep_pass_stops_at_first_live_item
    [where p = "\<lparr>list_p = [\<lparr>expire = 900, value_p = Val (1::nat)\<rparr>,
                          \<lparr>expire = 1000, value_p = Val 2\<rparr>,
                          \<lparr>expire = 2000, value_p = Val 3\<rparr>, \<lparr>expire = 950, value_p = Val 4\<rparr>],
         closed = False, TTL = 5000000, NewFunc = None, ExpireFunc = Some record_value\<rparr>"
       and clk = "steady 1000" and e = "\<lparr>world = [], ticks = 0\<rparr>"
       and gone = "[\<lparr>expire = 900, value_p = Val 1\<rparr>, \<lparr>expire = 1000, value_p = Val 2\<rparr>]"
       and kept = "[\<lparr>expire = 2000, value_p = Val 3\<rparr>, \<lparr>expire = 950, value_p = Val 4\<rparr>]"]
  by (simp add: steady_def record_value_def word_sless_alt)

subsection \<open>The sweep of a closed pool\<close>

text \<open>
  C3, as stated, has the closed-pool sweep drain the entire store whether or not an
  \<open>ExpireFunc\<close> is configured. A pool made with no \<open>ExpireFunc\<close>, given one item and then
  closed, still holds that item after the sweep: the drain is guarded by the test for an
  \<open>ExpireFunc\<close>.
\<close>

theorem closed_sweep_leaves_store_without_ExpireFunc:
  "checkExpireItems (steady 1000)
      (Close (fst (snd (Put (steady 1000) (Val (7::nat)) (New 0 None [])
                          \<lparr>world = (), ticks = 0\<rparr>))))
      \<lparr>world = (), ticks = 0\<rparr>
   = (Exited,
      \<lparr>list_p = [\<lparr>expire = 0, value_p = Val 7\<rparr>], closed = True, TTL = 0,
        NewFunc = None, ExpireFunc = None\<rparr>,
      \<lparr>world = (), ticks = 0\<rparr>)"
  by (simp add: checkExpireItems_def Close_def Put_def New_def PushBack_def timer_Exit_def)

text \<open>
  C3, amended. When the sweep finds the pool closed and an \<open>ExpireFunc\<close> is configured, it
  empties the store, handing every stored value to \<open>ExpireFunc\<close> once, front to back (with
  the recording callback the record grows by exactly the stored values); when no
  \<open>ExpireFunc\<close> is configured it leaves the store and the world as they are. In both
  cases the job is deregistered, the clock is not read and the result does not depend on
  the TTL or on the clock: neither the test for a zero TTL nor the expiration pass is part
  of a closed-pool invocation. On an open pool the job stays registered.
\<close>

theorem closed_sweep_drains_with_ExpireFunc:
  "(closed p \<longrightarrow>
      checkExpireItems clk p e =
        (Exited,
         case ExpireFunc p of Some f \<Rightarrow> p\<lparr>list_p := []\<rparr> | None \<Rightarrow> p,
         case ExpireFunc p of
           Some f \<Rightarrow> e\<lparr>world := fold (\<lambda>it. f (value_p it)) (list_p p) (world e)\<rparr>
         | None \<Rightarrow> e)) \<and>
   (closed q \<and> ExpireFunc q = Some record_value \<longrightarrow>
      checkExpireItems clk q l =
        (Exited, q\<lparr>list_p := []\<rparr>, l\<lparr>world := world l @ map value_p (list_p q)\<rparr>)) \<and>
   (closed p \<longrightarrow> checkExpireItems clk' (p\<lparr>TTL := ttl\<rparr>) e
        = (case checkExpireItems clk p e of (j, p', e') \<Rightarrow> (j, p'\<lparr>TTL := ttl\<rparr>, e'))) \<and>
   (\<not> closed p \<longrightarrow> fst (checkExpireItems clk p e) = Registered)"
  by (simp add: checkExpireItems_def drain_fold fold_record_value timer_Exit_def Let_def
      split: option.splits prod.splits)

theorem closed_sweep_drains_with_ExpireFunc_witness:
  "checkExpireItems (steady 1000)
       \<lparr>list_p = [\<lparr>expire = 900, value_p = Val (1::nat)\<rparr>, \<lparr>expire = 2000, value_p = Val 2\<rparr>],
         closed = True, TTL = 5000000, NewFunc = None, ExpireFunc = Some record_value\<rparr>
       \<lparr>world = [], ticks = 0\<rparr>
     = (Exited,
        \<lparr>list_p = [], closed = True, TTL = 5000000, NewFunc = None,
          ExpireFunc = Some record_value\<rparr>,
        \<lparr>world = [Val 1, Val 2], ticks = 0\<rparr>) \<and>
   checkExpireItems (steady 1000)
       \<lparr>list_p = [\<lparr>expire = 900, value_p = Val (1::nat)\<rparr>],
         closed = True, TTL = 5000000, NewFunc = None, ExpireFunc = None\<rparr>
       \<lparr>world = [] :: nat iface list, ticks = 0\<rparr>
     = (Exited,
        \<lparr>list_p = [\<lparr>expire = 900, value_p = Val 1\<rparr>],
          closed = True, TTL = 5000000, NewFunc = None, ExpireFunc = None\<rparr>,
        \<lparr>world = [], ticks = 0\<rparr>) \<and>
   fst (checkExpireItems (steady 1000)
       \<lparr>list_p = [\<lparr>expire = 900, value_p = Val (1::nat)\<rparr>],
         closed = False, TTL = 5000000, NewFunc = None, ExpireFunc = Some record_value\<rparr>
       \<lparr>world = [], ticks = 0\<rparr>) = Registered"
proof -
  let ?full = "\<lparr>list_p = [\<lparr>expire = 900, value_p = Val (1::nat)\<rparr>,
                           \<lparr>expire = 2000, value_p = Val 2\<rparr>],
         closed = True, TTL = 5000000, NewFunc = None,
         ExpireFunc = Some record_value\<rparr> :: (nat, nat iface list) Pool"
  let ?bare = "\<lparr>list_p = [\<lparr>expire = 900, value_p = Val (1::nat)\<rparr>],
         closed = True, TTL = 5000000, NewFunc = None,
         ExpireFunc = None\<rparr> :: (nat, nat iface list) Pool"
  let ?live = "\<lparr>list_p = [\<lparr>expire = 900, value_p = Val (1::nat)\<rparr>],
         closed = False, TTL = 5000000, NewFunc = None,
         ExpireFunc = Some record_value\<rparr> :: (nat, nat iface list) Pool"
  let ?e = "\<lparr>world = [] :: nat iface list, ticks = 0\<rparr>"
  have cf: "closed ?full \<and> ExpireFunc ?full = Some record_value"
    and cb: "closed ?bare" and ol: "\<not> closed ?live"
    by simp_all
  from closed_sweep_drains_with_ExpireFunc
    [where p = ?bare and q = ?full and clk = "steady 1000" and e = ?e and l = ?e]
  have "checkExpireItems (steady 1000) ?full ?e
          = (Exited, ?full\<lparr>list_p := []\<rparr>,
             ?e\<lparr>world := world ?e @ map value_p (list_p ?full)\<rparr>)"
    and "checkExpireItems (steady 1000) ?bare ?e
          = (Exited,
             case ExpireFunc ?bare of Some f \<Rightarrow> ?bare\<lparr>list_p := []\<rparr> | None \<Rightarrow> ?bare,
             case ExpireFunc ?bare of
               Some f \<Rightarrow> ?e\<lparr>world := fold (\<lambda>it. f (value_p it)) (list_p ?bare) (world ?e)\<rparr>
             | None \<Rightarrow> ?e)"
    using cf cb by blast+
  moreover
  from closed_sweep_drains_with_ExpireFunc
    [where p = ?live and clk = "steady 1000" and e = ?e]
  have "fst (checkExpireItems (steady 1000) ?live ?e) = Registered"
    using ol by blast
  ultimately show ?thesis
    by simp
qed

subsection \<open>A pool whose TTL is 0\<close>

text \<open>
  C4, as stated, has \<open>Get\<close> return an item with TTL 0 whenever it reaches the front. After
  \<open>New(0, nil)\<close>, \<open>Put(7)\<close> and \<open>Close()\<close> the item is at the front of the store, yet \<open>Get\<close>
  fails with \<open>PoolEmpty\<close> and the item stays where it is: the loop of \<open>Get\<close> does not run on
  a closed pool.
\<close>

theorem TTL_zero_item_not_returned_once_closed:
  "Get (steady 1000)
       (Close (fst (snd (Put (steady 1000) (Val (7::nat)) (New 0 None [])
                           \<lparr>world = (), ticks = 0\<rparr>))))
       \<lparr>world = (), ticks = 0\<rparr>
     = ((nil, Some PoolEmpty),
        \<lparr>list_p = [\<lparr>expire = 0, value_p = Val 7\<rparr>], closed = True, TTL = 0,
          NewFunc = None, ExpireFunc = None\<rparr>,
        \<lparr>world = (), ticks = 0\<rparr>)"
  by (simp add: Get_def Close_def Put_def New_def PushBack_def)

text \<open>
  C4, amended. Let the TTL be 0. \<open>Put\<close> on the open pool appends the value with \<open>expire\<close>
  0 and reads no clock. \<open>Get\<close> on the open pool, when the item at the front has \<open>expire\<close>
  0, returns that item's value with no error, whatever the clock says. The sweep of the
  open pool changes nothing and stays registered. \<open>Close\<close> and \<open>Size\<close> leave the store as
  it is; on the closed pool \<open>Put\<close> fails and changes nothing and \<open>Get\<close> leaves the store
  as it is. Every operation other than \<open>Clear\<close>, \<open>Get\<close> on the open pool and the sweep of
  the closed pool keeps every stored item in place, so an item can leave the store only
  through those three.
\<close>

theorem TTL_zero_items_never_expire:
  assumes "TTL p = 0"
  shows "(\<not> closed p \<longrightarrow>
            Put clk v p e
              = (None, p\<lparr>list_p := list_p p @ [\<lparr>expire = 0, value_p = v\<rparr>]\<rparr>, e)) \<and>
         (\<not> closed p \<and> list_p p = it # rest \<and> expire it = 0 \<longrightarrow>
            Get clk p e = ((value_p it, None), p\<lparr>list_p := rest\<rparr>, e)) \<and>
         (\<not> closed p \<longrightarrow> checkExpireItems clk p e = (Registered, p, e)) \<and>
         list_p (Close p) = list_p p \<and> Size p = length (list_p p) \<and>
         (closed p \<longrightarrow> Put clk v p e = (Some PoolClosed, p, e)) \<and>
         (closed p \<longrightarrow> list_p (fst (snd (Get clk p e))) = list_p p) \<and>
         (op \<noteq> OpClear \<and> (op = OpGet \<longrightarrow> closed p) \<and> (op = OpSweep \<longrightarrow> \<not> closed p) \<longrightarrow>
            prefix (list_p p) (list_p (fst (step clk op (p, e)))))"
proof (intro conjI impI)
  assume "\<not> closed p"
  with assms show "Put clk v p e
              = (None, p\<lparr>list_p := list_p p @ [\<lparr>expire = 0, value_p = v\<rparr>]\<rparr>, e)"
    by (simp add: Put_def PushBack_def)
  from \<open>\<not> closed p\<close> assms show "checkExpireItems clk p e = (Registered, p, e)"
    by (simp add: checkExpireItems_def)
next
  assume "\<not> closed p \<and> list_p p = it # rest \<and> expire it = 0"
  then show "Get clk p e = ((value_p it, None), p\<lparr>list_p := rest\<rparr>, e)"
    by (simp add: Get_front_zero)
next
  show "list_p (Close p) = list_p p" by (simp add: Close_def)
  show "Size p = length (list_p p)" by (simp add: Size_def Len_def)
next
  assume "closed p"
  then show "Put clk v p e = (Some PoolClosed, p, e)"
    by (simp add: Put_def)
  from \<open>closed p\<close> show "list_p (fst (snd (Get clk p e))) = list_p p"
    by (cases "NewFunc p") (simp_all add: Get_def split: prod.splits)
next
  assume a: "op \<noteq> OpClear \<and> (op = OpGet \<longrightarrow> closed p) \<and> (op = OpSweep \<longrightarrow> \<not> closed p)"
  show "prefix (list_p p) (list_p (fst (step clk op (p, e))))"
  proof (cases op)
    case (OpPut w)
    with assms show ?thesis
      by (cases "closed p") (simp_all add: Put_def PushBack_def)
  next
    case OpGet
    with a have "closed p" by simp
    with OpGet show ?thesis
      by (cases "NewFunc p") (simp_all add: Get_def split: prod.splits)
  next
    case OpClear
    with a show ?thesis by simp
  next
    case OpSize
    then show ?thesis by simp
  next
    case OpClose
    then show ?thesis by (simp add: Close_def)
  next
    case OpSweep
    with a have "\<not> closed p" by simp
    with OpSweep assms show ?thesis by (simp add: checkExpireItems_def)
  qed
qed

theorem TTL_zero_items_never_expire_witness:
  "Put (steady 1000) (Val (7::nat)) (New 0 None []) \<lparr>world = (), ticks = 0\<rparr>
     = (None, (New 0 None []) \<lparr>list_p := [\<lparr>expire = 0, value_p = Val 7\<rparr>]\<rparr>,
        \<lparr>world = (), ticks = 0\<rparr>) \<and>
   Get (steady 1000) ((New 0 None []) \<lparr>list_p := [\<lparr>expire = 0, value_p = Val (7::nat)\<rparr>]\<rparr>)
       \<lparr>world = (), ticks = 0\<rparr>
     = ((Val 7, None), New 0 None [], \<lparr>world = (), ticks = 0\<rparr>) \<and>
   checkExpireItems (steady 1000)
       ((New 0 None []) \<lparr>list_p := [\<lparr>expire = 0, value_p = Val (7::nat)\<rparr>]\<rparr>)
       \<lparr>world = (), ticks = 0\<rparr>
     = (Registered, (New 0 None []) \<lparr>list_p := [\<lparr>expire = 0, value_p = Val 7\<rparr>]\<rparr>,
        \<lparr>world = (), ticks = 0\<rparr>) \<and>
   Put (steady 1000) (Val (8::nat))
       ((New 0 None []) \<lparr>list_p := [\<lparr>expire = 0, value_p = Val 7\<rparr>], closed := True\<rparr>)
       \<lparr>world = (), ticks = 0\<rparr>
     = (Some PoolClosed,
        (New 0 None []) \<lparr>list_p := [\<lparr>expire = 0, value_p = Val 7\<rparr>], closed := True\<rparr>,
        \<lparr>world = (), ticks = 0\<rparr>) \<and>
   list_p (fst (snd (Get (steady 1000)
       ((New 0 None []) \<lparr>list_p := [\<lparr>expire = 0, value_p = Val (7::nat)\<rparr>], closed := True\<rparr>)
       \<lparr>world = (), ticks = 0\<rparr>)))
     = [\<lparr>expire = 0, value_p = Val 7\<rparr>] \<and>
   prefix [\<lparr>expire = 0, value_p = Val (7::nat)\<rparr>]
     (list_p (fst (step (steady 1000) (OpPut (Val 8))
        ((New 0 None []) \<lparr>list_p := [\<lparr>expire = 0, value_p = Val 7\<rparr>]\<rparr>,
         \<lparr>world = (), ticks = 0\<rparr>))))"
proof -
  let ?p = "New 0 None [] :: (nat, unit) Pool"
  let ?q = "?p\<lparr>list_p := [\<lparr>expire = 0, value_p = Val (7::nat)\<rparr>]\<rparr>"
  let ?c = "?p\<lparr>list_p := [\<lparr>expire = 0, value_p = Val (7::nat)\<rparr>], closed := True\<rparr>"
  let ?e = "\<lparr>world = (), ticks = 0\<rparr>"
  have tp: "TTL ?p = 0" and tq: "TTL ?q = 0" and tc: "TTL ?c = 0"
    by (simp_all add: New_def)
  have op: "\<not> closed ?p" and oq: "\<not> closed ?q" and cc: "closed ?c"
    by (simp_all add: New_def)
  have front: "\<not> closed ?q \<and> list_p ?q = \<lparr>expire = 0, value_p = Val 7\<rparr> # [] \<and>
      expire \<lparr>expire = 0, value_p = Val (7::nat)\<rparr> = 0"
    by (simp add: New_def)
  have kept: "OpPut (Val (8::nat)) \<noteq> OpClear \<and> (OpPut (Val (8::nat)) = OpGet \<longrightarrow> closed ?q) \<and>
      (OpPut (Val (8::nat)) = OpSweep \<longrightarrow> \<not> closed ?q)"
    by simp
  from TTL_zero_items_never_expire [OF tp, where clk = "steady 1000" and v = "Val 7" and e = ?e]
  have "Put (steady 1000) (Val 7) ?p ?e
          = (None, ?p\<lparr>list_p := list_p ?p @ [\<lparr>expire = 0, value_p = Val 7\<rparr>]\<rparr>, ?e)"
    using op by blast
  moreover
  from TTL_zero_items_never_expire [OF tq, where clk = "steady 1000" and e = ?e
      and it = "\<lparr>expire = 0, value_p = Val 7\<rparr>" and rest = "[]" and op = "OpPut (Val 8)"]
  have "Get (steady 1000) ?q ?e
          = ((value_p \<lparr>expire = 0, value_p = Val (7::nat)\<rparr>, None), ?q\<lparr>list_p := []\<rparr>, ?e)"
    and "checkExpireItems (steady 1000) ?q ?e = (Registered, ?q, ?e)"
    and "prefix (list_p ?q) (list_p (fst (step (steady 1000) (OpPut (Val 8)) (?q, ?e))))"
    using front kept by blast+
  moreover
  from TTL_zero_items_never_expire [OF tc, where clk = "steady 1000" and e = ?e and v = "Val 8"]
  have "Put (steady 1000) (Val 8) ?c ?e = (Some PoolClosed, ?c, ?e)"
    and "list_p (fst (snd (Get (steady 1000) ?c ?e))) = list_p ?c"
    using cc by blast+
  ultimately show ?thesis
    by (simp add: New_def)
qed

subsection \<open>Whole milliseconds: a positive TTL below one millisecond\<close>

text \<open>
  C10. Let the pool be open with a positive TTL. \<open>Put\<close> appends an item whose \<open>expire\<close> is
  the clock reading plus the TTL's nanoseconds divided by 1000000, rounded down: whole
  milliseconds only. If the TTL is below one millisecond that quotient is 0 and \<open>expire\<close>
  is the insertion timestamp itself; then a \<open>Get\<close> of an open pool that finds the item at
  the front with a clock reading not below that (nonzero) timestamp drops it and goes on
  as if it had not been there, and a sweep of an open pool with such a reading pops it,
  hands its value to \<open>ExpireFunc\<close> (if any) and goes on with the rest.
\<close>

theorem sub_millisecond_TTL_expires_at_once:
  assumes "\<not> closed p" and "0 <s TTL p"
    and "item = \<lparr>expire = clk (ticks e) + div64 (Nanoseconds (TTL p)) 1000000, value_p = v\<rparr>"
  shows "Put clk v p e
           = (None, p\<lparr>list_p := list_p p @ [item]\<rparr>, e\<lparr>ticks := Suc (ticks e)\<rparr>) \<and>
         expire item = clk (ticks e) + word_of_int (sint (TTL p) div 1000000) \<and>
         (TTL p <s 1000000 \<longrightarrow>
            expire item = clk (ticks e) \<and>
            (\<not> closed q \<and> list_p q = item # rest \<and> clk (ticks e) \<noteq> 0 \<and>
             clk (ticks e) \<le>s clk (ticks e2) \<longrightarrow>
               Get clk q e2 = Get clk (q\<lparr>list_p := rest\<rparr>) (e2\<lparr>ticks := Suc (ticks e2)\<rparr>)) \<and>
            (\<not> closed q \<and> TTL q \<noteq> 0 \<and> list_p q = item # rest \<and>
             \<not> clk (ticks e2) <s - 1 \<and> clk (ticks e) \<le>s clk (ticks e2) \<longrightarrow>
               checkExpireItems clk q e2 =
                 checkExpireItems clk (q\<lparr>list_p := rest\<rparr>)
                   (e2\<lparr>world := (case ExpireFunc q of
                                    Some f \<Rightarrow> f v (world e2) | None \<Rightarrow> world e2)\<rparr>)))"
proof (intro conjI impI)
  from assms(2) have nz: "TTL p \<noteq> 0" by auto
  with assms(1,3) show "Put clk v p e
           = (None, p\<lparr>list_p := list_p p @ [item]\<rparr>, e\<lparr>ticks := Suc (ticks e)\<rparr>)"
    by (simp add: Put_open_nonzero)
  from assms(2) have "0 < sint (TTL p)" by (simp add: word_sless_alt)
  then show "expire item = clk (ticks e) + word_of_int (sint (TTL p) div 1000000)"
    using assms(3) by (simp add: div64_def Nanoseconds_def sdiv_nonneg)
next
  assume sub: "TTL p <s 1000000"
  with assms(2,3) show ex: "expire item = clk (ticks e)"
    by (simp add: div64_sub_milli)
  {
    assume a: "\<not> closed q \<and> list_p q = item # rest \<and> clk (ticks e) \<noteq> 0 \<and>
             clk (ticks e) \<le>s clk (ticks e2)"
    then have "\<not> clk (ticks e2) <s expire item" using ex by (simp add: word_sless_alt word_sle_eq)
    with a ex show "Get clk q e2 = Get clk (q\<lparr>list_p := rest\<rparr>) (e2\<lparr>ticks := Suc (ticks e2)\<rparr>)"
      by (simp add: Get_front_expired)
  }
  {
    assume a: "\<not> closed q \<and> TTL q \<noteq> 0 \<and> list_p q = item # rest \<and>
             \<not> clk (ticks e2) <s - 1 \<and> clk (ticks e) \<le>s clk (ticks e2)"
    then have "\<not> clk (ticks e2) <s expire item" using ex by (simp add: word_sless_alt word_sle_eq)
    with a have "checkExpireItems clk q e2 =
           checkExpireItems clk (q\<lparr>list_p := rest\<rparr>)
             (e2\<lparr>world := (case ExpireFunc q of
                              Some f \<Rightarrow> fold (\<lambda>it. f (value_p it)) [item] (world e2)
                            | None \<Rightarrow> world e2)\<rparr>)"
      by (intro sweep_front_expired) simp_all
    then show "checkExpireItems clk q e2 =
                 checkExpireItems clk (q\<lparr>list_p := rest\<rparr>)
                   (e2\<lparr>world := (case ExpireFunc q of
                                    Some f \<Rightarrow> f v (world e2) | None \<Rightarrow> world e2)\<rparr>)"
      using assms(3) by (cases "ExpireFunc q") simp_all
  }
qed


theorem sub_millisecond_TTL_expires_at_once_witness:
  "Put (steady 1000) (Val (7::nat)) (New 500000 None []) \<lparr>world = (), ticks = 0\<rparr>
     = (None, (New 500000 None []) \<lparr>list_p := [\<lparr>expire = 1000, value_p = Val 7\<rparr>]\<rparr>,
        \<lparr>world = (), ticks = 1\<rparr>) \<and>
   Get (steady 1000) ((New 500000 None []) \<lparr>list_p := [\<lparr>expire = 1000, value_p = Val (7::nat)\<rparr>]\<rparr>)
       \<lparr>world = (), ticks = 1\<rparr>
     = ((nil, Some PoolEmpty), New 500000 None [], \<lparr>world = (), ticks = 2\<rparr>) \<and>
   checkExpireItems (steady 1000)
       ((New 500000 None []) \<lparr>list_p := [\<lparr>expire = 1000, value_p = Val (7::nat)\<rparr>]\<rparr>)
       \<lparr>world = (), ticks = 1\<rparr>
     = (Registered, New 500000 None [], \<lparr>world = (), ticks = 2\<rparr>)"
  using sub_millisecond_TTL_expires_at_once
    [where p = "New 500000 None []" and clk = "steady 1000" and v = "Val (7::nat)"
       and e = "\<lparr>world = (), ticks = 0\<rparr>"
       and item = "\<lparr>expire = 1000, value_p = Val 7\<rparr>"
       and q = "(New 500000 None []) \<lparr>list_p := [\<lparr>expire = 1000, value_p = Val (7::nat)\<rparr>]\<rparr>"
       and rest = "[]" and ?e2.0 = "\<lparr>world = (), ticks = 1\<rparr>"]
  by (simp add: New_def steady_def div64_def Nanoseconds_def signed_divide_int_def
      Get_def checkExpireItems_def TimestampMilli_def word_sless_alt word_sle_eq)

subsection \<open>A positive TTL\<close>

text \<open>
  C1, as stated, puts the deadline at the insertion time plus the TTL. The TTL counts
  nanoseconds and \<open>Put\<close> keeps only its whole milliseconds: with a TTL of 1.5 ms an item
  put at millisecond 1000 is not returned by a \<open>Get\<close> at millisecond 1001, although
  1001 ms is before 1000 ms + 1.5 ms.
\<close>

theorem positive_TTL_fraction_of_millisecond_lost:
  "sint (readings [1000, 1001] 1) * 1000000
     < sint (readings [1000, 1001] 0) * 1000000 + sint (TTL (New 1500000 None [] :: (nat, unit) Pool)) \<and>
   Get (readings [1000, 1001])
       (fst (snd (Put (readings [1000, 1001]) (Val (7::nat)) (New 1500000 None [])
                    \<lparr>world = (), ticks = 0\<rparr>)))
       (snd (snd (Put (readings [1000, 1001]) (Val (7::nat)) (New 1500000 None [])
                    \<lparr>world = (), ticks = 0\<rparr>)))
     = ((nil, Some PoolEmpty), New 1500000 None [], \<lparr>world = (), ticks = 2\<rparr>)"
  by (simp add: readings_def New_def Put_def Get_def PushBack_def TimestampMilli_def
      div64_def Nanoseconds_def signed_divide_int_def)

text \<open>
  C1, amended. Let \<open>Put\<close> insert an item into an open pool with a positive TTL at a
  positive clock reading, and let the deadline be that reading plus the TTL's whole
  milliseconds (a sum that fits in 64 bits). The item's \<open>expire\<close> is the deadline. While
  the item is at the front of the open pool and the clock reads less than the deadline,
  \<open>Get\<close> returns it. Once the clock, which never runs backwards, has given a reading at
  or after the deadline, every later \<open>Get\<close> that finds the item at the front drops it
  and goes on as if it had not been there, and every later sweep that finds it at the
  front pops it, hands its value to \<open>ExpireFunc\<close> (if any) and goes on with the rest: the
  item is never returned again.
\<close>

theorem positive_TTL_deadline_in_whole_milliseconds:
  assumes "\<not> closed p" and "0 <s TTL p"
    and "0 < sint (clk (ticks e))"
    and "deadline = sint (clk (ticks e)) + sint (TTL p) div 1000000"
    and "deadline < 2 ^ 63"
    and "item = \<lparr>expire = clk (ticks e) + div64 (Nanoseconds (TTL p)) 1000000, value_p = v\<rparr>"
    and "\<not> closed q" and "list_p q = item # rest"
  shows "Put clk v p e
           = (None, p\<lparr>list_p := list_p p @ [item]\<rparr>, e\<lparr>ticks := Suc (ticks e)\<rparr>) \<and>
         sint (expire item) = deadline \<and>
         (sint (clk (ticks e2)) < deadline \<longrightarrow>
            Get clk q e2 = ((v, None), q\<lparr>list_p := rest\<rparr>, e2\<lparr>ticks := Suc (ticks e2)\<rparr>)) \<and>
         (clock_mono clk \<and> deadline \<le> sint (clk n) \<and> n \<le> ticks e2 \<longrightarrow>
            Get clk q e2 = Get clk (q\<lparr>list_p := rest\<rparr>) (e2\<lparr>ticks := Suc (ticks e2)\<rparr>) \<and>
            (TTL q \<noteq> 0 \<longrightarrow>
               checkExpireItems clk q e2 =
                 checkExpireItems clk (q\<lparr>list_p := rest\<rparr>)
                   (e2\<lparr>world := (case ExpireFunc q of
                                    Some f \<Rightarrow> f v (world e2) | None \<Rightarrow> world e2)\<rparr>)))"
proof -
  from assms(2) have nz: "TTL p \<noteq> 0" by auto
  from assms(2) have pos: "0 < sint (TTL p)" by (simp add: word_sless_alt)
  have ms: "sint (div64 (Nanoseconds (TTL p)) 1000000) = sint (TTL p) div 1000000"
    using assms(2) by (rule sint_div64_pos)
  have ms0: "0 \<le> sint (TTL p) div 1000000"
    using pos by (simp add: pos_imp_zdiv_nonneg_iff)
  have dl: "sint (expire item) = deadline"
  proof -
    have "sint (clk (ticks e) + div64 (Nanoseconds (TTL p)) 1000000)
            = sint (clk (ticks e)) + sint (div64 (Nanoseconds (TTL p)) 1000000)"
      using assms(3,4,5) ms ms0 by (intro sint_add_nowrap) simp_all
    then show ?thesis using assms(4,6) ms by simp
  qed
  have dpos: "0 < deadline" using assms(3,4) ms0 by linarith
  have enz: "expire item \<noteq> 0"
  proof
    assume "expire item = 0"
    then have "sint (expire item) = 0" by simp
    with dl dpos show False by simp
  qed
  have put: "Put clk v p e
           = (None, p\<lparr>list_p := list_p p @ [item]\<rparr>, e\<lparr>ticks := Suc (ticks e)\<rparr>)"
    using assms(1,6) nz by (simp add: Put_open_nonzero)
  have vi: "value_p item = v" using assms(6) by simp
  have live: "sint (clk (ticks e2)) < deadline \<longrightarrow>
            Get clk q e2 = ((v, None), q\<lparr>list_p := rest\<rparr>, e2\<lparr>ticks := Suc (ticks e2)\<rparr>)"
  proof
    assume "sint (clk (ticks e2)) < deadline"
    with dl have "clk (ticks e2) <s expire item" by (simp add: word_sless_alt)
    from Get_front_live [where clk = clk and e = e2, OF assms(7,8) enz this] vi show
      "Get clk q e2 = ((v, None), q\<lparr>list_p := rest\<rparr>, e2\<lparr>ticks := Suc (ticks e2)\<rparr>)"
      by simp
  qed
  have dead: "clock_mono clk \<and> deadline \<le> sint (clk n) \<and> n \<le> ticks e2 \<longrightarrow>
            Get clk q e2 = Get clk (q\<lparr>list_p := rest\<rparr>) (e2\<lparr>ticks := Suc (ticks e2)\<rparr>) \<and>
            (TTL q \<noteq> 0 \<longrightarrow>
               checkExpireItems clk q e2 =
                 checkExpireItems clk (q\<lparr>list_p := rest\<rparr>)
                   (e2\<lparr>world := (case ExpireFunc q of
                                    Some f \<Rightarrow> f v (world e2) | None \<Rightarrow> world e2)\<rparr>))"
  proof (intro impI conjI)
    assume a: "clock_mono clk \<and> deadline \<le> sint (clk n) \<and> n \<le> ticks e2"
    then have "sint (clk n) \<le> sint (clk (ticks e2))" by (simp add: clock_monoD)
    with a have late: "deadline \<le> sint (clk (ticks e2))" by linarith
    with dl have stale: "\<not> clk (ticks e2) <s expire item" by (simp add: word_sless_alt)
    from Get_front_expired [where clk = clk and e = e2, OF assms(7,8) enz stale]
    show "Get clk q e2 = Get clk (q\<lparr>list_p := rest\<rparr>) (e2\<lparr>ticks := Suc (ticks e2)\<rparr>)" .
    assume tq: "TTL q \<noteq> 0"
    from late dpos have epoch: "\<not> clk (ticks e2) <s - 1" by (simp add: word_sless_alt)
    have "checkExpireItems clk q e2 =
           checkExpireItems clk (q\<lparr>list_p := rest\<rparr>)
             (e2\<lparr>world := (case ExpireFunc q of
                              Some f \<Rightarrow> fold (\<lambda>it. f (value_p it)) [item] (world e2)
                            | None \<Rightarrow> world e2)\<rparr>)"
      using assms(7,8) tq stale epoch by (intro sweep_front_expired) simp_all
    then show "checkExpireItems clk q e2 =
                 checkExpireItems clk (q\<lparr>list_p := rest\<rparr>)
                   (e2\<lparr>world := (case ExpireFunc q of
                                    Some f \<Rightarrow> f v (world e2) | None \<Rightarrow> world e2)\<rparr>)"
      using vi by (cases "ExpireFunc q") simp_all
  qed
  from put dl live dead show ?thesis by blast
qed

theorem positive_TTL_deadline_in_whole_milliseconds_witness:
  "Put (readings [1000, 1000, 1001]) (Val (7::nat)) (New 1500000 None [])
       \<lparr>world = (), ticks = 0\<rparr>
     = (None, (New 1500000 None []) \<lparr>list_p := [\<lparr>expire = 1001, value_p = Val 7\<rparr>]\<rparr>,
        \<lparr>world = (), ticks = 1\<rparr>) \<and>
   Get (readings [1000, 1000, 1001])
       ((New 1500000 None []) \<lparr>list_p := [\<lparr>expire = 1001, value_p = Val (7::nat)\<rparr>]\<rparr>)
       \<lparr>world = (), ticks = 1\<rparr>
     = ((Val 7, None), New 1500000 None [], \<lparr>world = (), ticks = 2\<rparr>) \<and>
   Get (readings [1000, 1000, 1001])
       ((New 1500000 None []) \<lparr>list_p := [\<lparr>expire = 1001, value_p = Val (7::nat)\<rparr>]\<rparr>)
       \<lparr>world = (), ticks = 2\<rparr>
     = ((nil, Some PoolEmpty), New 1500000 None [], \<lparr>world = (), ticks = 3\<rparr>) \<and>
   checkExpireItems (readings [1000, 1000, 1001])
       ((New 1500000 None []) \<lparr>list_p := [\<lparr>expire = 1001, value_p = Val (7::nat)\<rparr>]\<rparr>)
       \<lparr>world = (), ticks = 2\<rparr>
     = (Registered, New 1500000 None [], \<lparr>world = (), ticks = 3\<rparr>)"
proof -
  let ?clk = "readings [1000, 1000, 1001]"
  let ?p = "New 1500000 None [] :: (nat, unit) Pool"
  let ?item = "\<lparr>expire = 1001, value_p = Val (7::nat)\<rparr>"
  let ?q = "?p\<lparr>list_p := [?item]\<rparr>"
  let ?e = "\<lparr>world = (), ticks = 0\<rparr>"
  have h1: "\<not> closed ?p" and h2: "0 <s TTL ?p"
    by (simp_all add: New_def word_sless_alt)
  have h3: "0 < sint (?clk (ticks ?e))"
    by (simp add: readings_def)
  have h4: "1001 = sint (?clk (ticks ?e)) + sint (TTL ?p) div 1000000"
    by (simp add: readings_def New_def)
  have h5: "(1001::int) < 2 ^ 63"
    by simp
  have h6: "?item = \<lparr>expire = ?clk (ticks ?e) + div64 (Nanoseconds (TTL ?p)) 1000000,
                      value_p = Val 7\<rparr>"
    by (simp add: readings_def New_def div64_def Nanoseconds_def signed_divide_int_def)
  have h7: "\<not> closed ?q" and h8: "list_p ?q = ?item # []"
    by (simp_all add: New_def)
  note live = positive_TTL_deadline_in_whole_milliseconds
    [where clk = ?clk and p = ?p and e = ?e and deadline = 1001 and item = ?item
       and v = "Val 7" and q = ?q and rest = "[]" and ?e2.0 = "\<lparr>world = (), ticks = 1\<rparr>",
     OF h1 h2 h3 h4 h5 h6 h7 h8]
  note dead = positive_TTL_deadline_in_whole_milliseconds
    [where clk = ?clk and p = ?p and e = ?e and deadline = 1001 and item = ?item
       and v = "Val 7" and q = ?q and rest = "[]" and ?e2.0 = "\<lparr>world = (), ticks = 2\<rparr>"
       and n = 2,
     OF h1 h2 h3 h4 h5 h6 h7 h8]
  have before: "sint (?clk (ticks \<lparr>world = (), ticks = 1\<rparr>)) < 1001"
    by (simp add: readings_def)
  have after: "clock_mono ?clk \<and> 1001 \<le> sint (?clk 2) \<and>
      2 \<le> ticks \<lparr>world = (), ticks = 2\<rparr>"
    by (simp add: clock_mono_example readings_def)
  from live have "Put ?clk (Val 7) ?p ?e
      = (None, ?p\<lparr>list_p := list_p ?p @ [?item]\<rparr>, ?e\<lparr>ticks := Suc (ticks ?e)\<rparr>)"
    by blast
  moreover from live before have "Get ?clk ?q \<lparr>world = (), ticks = 1\<rparr>
      = ((Val 7, None), ?q\<lparr>list_p := []\<rparr>, \<lparr>world = (), ticks = 1\<rparr>\<lparr>ticks := Suc 1\<rparr>)"
    by simp
  moreover from dead after have "Get ?clk ?q \<lparr>world = (), ticks = 2\<rparr>
      = Get ?clk (?q\<lparr>list_p := []\<rparr>)
          (\<lparr>world = (), ticks = 2\<rparr>\<lparr>ticks := Suc (ticks \<lparr>world = (), ticks = 2\<rparr>)\<rparr>)"
    by blast
  moreover have "TTL ?q \<noteq> 0"
    by (simp add: New_def)
  with dead after have "checkExpireItems ?clk ?q \<lparr>world = (), ticks = 2\<rparr>
      = checkExpireItems ?clk (?q\<lparr>list_p := []\<rparr>)
          (\<lparr>world = (), ticks = 2\<rparr>
           \<lparr>world := (case ExpireFunc ?q of
                         Some f \<Rightarrow> f (Val 7) (world \<lparr>world = (), ticks = 2\<rparr>)
                       | None \<Rightarrow> world \<lparr>world = (), ticks = 2\<rparr>)\<rparr>)"
    by blast
  ultimately show ?thesis
    by (simp add: New_def Get_def checkExpireItems_def TimestampMilli_def)
qed

subsection \<open>A negative TTL\<close>

text \<open>
  C2, as stated, has \<open>Get\<close> return an item of a pool with a negative TTL when it comes
  before the next sweep. An item put with a TTL of minus one millisecond and fetched at
  once is not returned: its \<open>expire\<close> is already below the clock reading, \<open>Get\<close> drops it
  and, with no \<open>NewFunc\<close>, fails with \<open>PoolEmpty\<close>.
\<close>

theorem negative_TTL_item_not_returned_by_Get:
  "Get (steady 1000)
       (fst (snd (Put (steady 1000) (Val (7::nat)) (New (- 1000000) None [])
                    \<lparr>world = (), ticks = 0\<rparr>)))
       (snd (snd (Put (steady 1000) (Val (7::nat)) (New (- 1000000) None [])
                    \<lparr>world = (), ticks = 0\<rparr>)))
     = ((nil, Some PoolEmpty), New (- 1000000) None [], \<lparr>world = (), ticks = 2\<rparr>)"
  by (simp add: steady_def New_def Put_def Get_def PushBack_def TimestampMilli_def
      div64_def Nanoseconds_def signed_divide_int_def)

text \<open>
  C2, amended. Let \<open>Put\<close> insert an item into an open pool with a negative TTL at a
  positive clock reading, under a clock that never runs backwards. The item's \<open>expire\<close>
  is that reading minus the whole milliseconds of the TTL's size, so it is not above any
  later reading. A later \<open>Get\<close> that finds the item at the front (with \<open>expire\<close> not the
  sentinel 0) does not return it: it drops the item and goes on with the next item,
  \<open>NewFunc\<close> or \<open>PoolEmpty\<close>. And whatever happened to the pool between \<open>New\<close> and this
  \<open>Put\<close> and between this \<open>Put\<close> and the next sweep of the still open pool, that sweep
  empties the store, handing the value of every item still stored to \<open>ExpireFunc\<close> (if
  any) once: if the item has not been popped by then, the sweep discards it. The sweep
  of a closed pool with an \<open>ExpireFunc\<close> empties the store in the same way.
\<close>

theorem negative_TTL_item_is_stale_at_once:
  assumes "\<not> closed p" and "TTL p <s 0"
    and "0 < sint (clk (ticks e))"
    and "item = \<lparr>expire = clk (ticks e) + div64 (Nanoseconds (TTL p)) 1000000, value_p = v\<rparr>"
    and "clock_mono clk" and "ticks e \<le> ticks e2"
    and "\<not> closed q"
  shows "Put clk v p e
           = (None, p\<lparr>list_p := list_p p @ [item]\<rparr>, e\<lparr>ticks := Suc (ticks e)\<rparr>) \<and>
         sint (expire item) = sint (clk (ticks e)) - (- sint (TTL p)) div 1000000 \<and>
         expire item \<le>s clk (ticks e2) \<and>
         (list_p q = item # rest \<and> expire item \<noteq> 0 \<longrightarrow>
            Get clk q e2 = Get clk (q\<lparr>list_p := rest\<rparr>) (e2\<lparr>ticks := Suc (ticks e2)\<rparr>)) \<and>
         (0 < sint (clk (ticks e0)) \<and> run clk before (New (TTL p) nf efs, e0) = (p, e) \<and>
          run clk (OpPut v # after) (p, e) = (q, e2) \<longrightarrow>
            checkExpireItems clk q e2 =
              (Registered, q\<lparr>list_p := []\<rparr>,
               e2\<lparr>ticks := Suc (ticks e2),
                  world := (case ExpireFunc q of
                              Some f \<Rightarrow> fold (\<lambda>it. f (value_p it)) (list_p q) (world e2)
                            | None \<Rightarrow> world e2)\<rparr>)) \<and>
         (closed c \<and> ExpireFunc c = Some d \<longrightarrow>
            checkExpireItems clk c e3 =
              (Exited, c\<lparr>list_p := []\<rparr>,
               e3\<lparr>world := fold (\<lambda>it. d (value_p it)) (list_p c) (world e3)\<rparr>))"
proof -
  from assms(2) have nz: "TTL p \<noteq> 0" by auto
  have shut: "closed c \<and> ExpireFunc c = Some d \<longrightarrow>
            checkExpireItems clk c e3 =
              (Exited, c\<lparr>list_p := []\<rparr>,
               e3\<lparr>world := fold (\<lambda>it. d (value_p it)) (list_p c) (world e3)\<rparr>)"
    by (simp add: checkExpireItems_def drain_fold timer_Exit_def)
  have ex: "sint (expire item) = sint (clk (ticks e)) - (- sint (TTL p)) div 1000000"
    using negative_TTL_expire(1) [OF assms(2,3)] assms(4) by simp
  have le0: "sint (expire item) \<le> sint (clk (ticks e))"
    using negative_TTL_expire(2) [OF assms(2,3)] assms(4) by simp
  have later: "sint (clk (ticks e)) \<le> sint (clk (ticks e2))"
    using assms(5,6) by (rule clock_monoD)
  with le0 have le: "sint (expire item) \<le> sint (clk (ticks e2))" by linarith
  then have stale: "\<not> clk (ticks e2) <s expire item" by (simp add: word_sless_alt)
  from later assms(3) have epoch: "\<not> clk (ticks e2) <s - 1" by (simp add: word_sless_alt)
  have put: "Put clk v p e
           = (None, p\<lparr>list_p := list_p p @ [item]\<rparr>, e\<lparr>ticks := Suc (ticks e)\<rparr>)"
    using assms(1,4) nz by (simp add: Put_open_nonzero)
  have get: "list_p q = item # rest \<and> expire item \<noteq> 0 \<longrightarrow>
            Get clk q e2 = Get clk (q\<lparr>list_p := rest\<rparr>) (e2\<lparr>ticks := Suc (ticks e2)\<rparr>)"
    using assms(7) stale by (simp add: Get_front_expired)
  from le have sle: "expire item \<le>s clk (ticks e2)" by (simp add: word_sle_eq)
  have sweep: "0 < sint (clk (ticks e0)) \<and> run clk before (New (TTL p) nf efs, e0) = (p, e) \<and>
          run clk (OpPut v # after) (p, e) = (q, e2) \<longrightarrow>
            checkExpireItems clk q e2 =
              (Registered, q\<lparr>list_p := []\<rparr>,
               e2\<lparr>ticks := Suc (ticks e2),
                  world := (case ExpireFunc q of
                              Some f \<Rightarrow> fold (\<lambda>it. f (value_p it)) (list_p q) (world e2)
                            | None \<Rightarrow> world e2)\<rparr>)"
  proof
    assume a: "0 < sint (clk (ticks e0)) \<and> run clk before (New (TTL p) nf efs, e0) = (p, e) \<and>
          run clk (OpPut v # after) (p, e) = (q, e2)"
    have "all_stale clk (TTL p) (ticks e0) (run clk before (New (TTL p) nf efs, e0))"
      using assms(2,5) a New_all_stale by (intro run_all_stale) simp_all
    with a have "all_stale clk (TTL p) (ticks e0) (p, e)" by simp
    then have "all_stale clk (TTL p) (ticks e0) (run clk (OpPut v # after) (p, e))"
      using assms(2,5) a by (intro run_all_stale) simp_all
    with a have inv: "all_stale clk (TTL p) (ticks e0) (q, e2)" by simp
    then have "TTL q \<noteq> 0" using nz by (simp add: all_stale_def)
    moreover from inv have "\<forall>x \<in> set (list_p q). \<not> clk (ticks e2) <s expire x"
      by (simp add: all_stale_def word_sless_alt not_less)
    ultimately show "checkExpireItems clk q e2 =
              (Registered, q\<lparr>list_p := []\<rparr>,
               e2\<lparr>ticks := Suc (ticks e2),
                  world := (case ExpireFunc q of
                              Some f \<Rightarrow> fold (\<lambda>it. f (value_p it)) (list_p q) (world e2)
                            | None \<Rightarrow> world e2)\<rparr>)"
      using assms(7) epoch by (intro sweep_all_stale)
  qed
  from put ex sle get sweep shut show ?thesis by simp
qed

theorem negative_TTL_item_is_stale_at_once_witness:
  "Put (steady 1000) (Val (7::nat))
       ((New (- 1000000) None [Some record_value])
          \<lparr>list_p := [\<lparr>expire = 999, value_p = Val 6\<rparr>]\<rparr>)
       \<lparr>world = [], ticks = 1\<rparr>
     = (None,
        (New (- 1000000) None [Some record_value])
          \<lparr>list_p := [\<lparr>expire = 999, value_p = Val 6\<rparr>, \<lparr>expire = 999, value_p = Val 7\<rparr>]\<rparr>,
        \<lparr>world = [], ticks = 2\<rparr>) \<and>
   Get (steady 1000)
       ((New (- 1000000) None [Some record_value])
          \<lparr>list_p := [\<lparr>expire = 999, value_p = Val (7::nat)\<rparr>]\<rparr>)
       \<lparr>world = [], ticks = 2\<rparr>
     = ((nil, Some PoolEmpty), New (- 1000000) None [Some record_value],
        \<lparr>world = [], ticks = 3\<rparr>) \<and>
   checkExpireItems (steady 1000)
       ((New (- 1000000) None [Some record_value])
          \<lparr>list_p := [\<lparr>expire = 999, value_p = Val (6::nat)\<rparr>,
                      \<lparr>expire = 999, value_p = Val 7\<rparr>]\<rparr>)
       \<lparr>world = [], ticks = 2\<rparr>
     = (Registered, New (- 1000000) None [Some record_value],
        \<lparr>world = [Val 6, Val 7], ticks = 3\<rparr>) \<and>
   checkExpireItems (steady 1000)
       ((New (- 1000000) None [Some record_value])
          \<lparr>list_p := [\<lparr>expire = 999, value_p = Val (6::nat)\<rparr>,
                      \<lparr>expire = 999, value_p = Val 7\<rparr>], closed := True\<rparr>)
       \<lparr>world = [], ticks = 2\<rparr>
     = (Exited, (New (- 1000000) None [Some record_value]) \<lparr>closed := True\<rparr>,
        \<lparr>world = [Val 6, Val 7], ticks = 2\<rparr>)"
proof -
  let ?clk = "steady 1000"
  let ?n = "New (- 1000000) None [Some record_value] :: (nat, nat iface list) Pool"
  let ?other = "\<lparr>expire = 999, value_p = Val (6::nat)\<rparr>"
  let ?item = "\<lparr>expire = 999, value_p = Val (7::nat)\<rparr>"
  let ?p = "?n\<lparr>list_p := [?other]\<rparr>"
  let ?q = "?n\<lparr>list_p := [?other, ?item]\<rparr>"
  let ?g = "?n\<lparr>list_p := [?item]\<rparr>"
  let ?born = "\<lparr>world = [] :: nat iface list, ticks = 0\<rparr>"
  let ?e = "\<lparr>world = [] :: nat iface list, ticks = 1\<rparr>"
  let ?late = "\<lparr>world = [] :: nat iface list, ticks = 2\<rparr>"
  have h1: "\<not> closed ?p" and h2: "TTL ?p <s 0"
    by (simp_all add: New_def word_sless_alt)
  have h3: "0 < sint (?clk (ticks ?e))"
    by (simp add: steady_def)
  have h4: "?item = \<lparr>expire = ?clk (ticks ?e) + div64 (Nanoseconds (TTL ?p)) 1000000,
                      value_p = Val 7\<rparr>"
    by (simp add: steady_def New_def div64_def Nanoseconds_def signed_divide_int_def)
  have h5: "clock_mono ?clk"
    by (rule clock_mono_steady)
  have h6: "ticks ?e \<le> ticks ?late"
    by simp
  have h7: "\<not> closed ?q" and h7': "\<not> closed ?g"
    by (simp_all add: New_def)
  note swept = negative_TTL_item_is_stale_at_once
    [where clk = ?clk and p = ?p and e = ?e and item = ?item and v = "Val 7" and q = ?q
       and ?e2.0 = ?late and ?e0.0 = ?born and before = "[OpPut (Val 6)]" and after = "[OpSize]"
       and nf = None and efs = "[Some record_value]"
       and c = "?q\<lparr>closed := True\<rparr>" and d = record_value and ?e3.0 = ?late,
     OF h1 h2 h3 h4 h5 h6 h7]
  note popped = negative_TTL_item_is_stale_at_once
    [where clk = ?clk and p = ?p and e = ?e and item = ?item and v = "Val 7" and q = ?g
       and ?e2.0 = ?late and rest = "[]",
     OF h1 h2 h3 h4 h5 h6 h7']
  have epoch: "0 < sint (?clk (ticks ?born))"
    by (simp add: steady_def)
  have earlier: "run ?clk [OpPut (Val 6)] (New (TTL ?p) None [Some record_value], ?born) = (?p, ?e)"
    by (simp add: run_def steady_def New_def Put_def PushBack_def TimestampMilli_def
        div64_def Nanoseconds_def signed_divide_int_def)
  have later: "run ?clk (OpPut (Val 7) # [OpSize]) (?p, ?e) = (?q, ?late)"
    by (simp add: run_def steady_def New_def Put_def PushBack_def TimestampMilli_def
        div64_def Nanoseconds_def signed_divide_int_def)
  note history = conjI [OF epoch conjI [OF earlier later]]
  have front: "list_p ?g = ?item # [] \<and> expire ?item \<noteq> 0"
    by simp
  from swept have "Put ?clk (Val 7) ?p ?e
      = (None, ?p\<lparr>list_p := list_p ?p @ [?item]\<rparr>, ?e\<lparr>ticks := Suc (ticks ?e)\<rparr>)"
    by blast
  moreover from popped front have "Get ?clk ?g ?late
      = Get ?clk (?g\<lparr>list_p := []\<rparr>) (?late\<lparr>ticks := Suc (ticks ?late)\<rparr>)"
    by blast
  moreover from swept history have "checkExpireItems ?clk ?q ?late
      = (Registered, ?q\<lparr>list_p := []\<rparr>,
         ?late\<lparr>ticks := Suc (ticks ?late),
             world := (case ExpireFunc ?q of
                         Some f \<Rightarrow> fold (\<lambda>it. f (value_p it)) (list_p ?q) (world ?late)
                       | None \<Rightarrow> world ?late)\<rparr>)"
    by blast
  moreover have "closed (?q\<lparr>closed := True\<rparr>) \<and>
      ExpireFunc (?q\<lparr>closed := True\<rparr>) = Some record_value"
    by (simp add: New_def)
  with swept have "checkExpireItems ?clk (?q\<lparr>closed := True\<rparr>) ?late
      = (Exited, ?q\<lparr>closed := True\<rparr>\<lparr>list_p := []\<rparr>,
         ?late\<lparr>world := fold (\<lambda>it. record_value (value_p it))
                           (list_p (?q\<lparr>closed := True\<rparr>)) (world ?late)\<rparr>)"
    by blast
  ultimately show ?thesis
    by (simp add: New_def Get_def record_value_def)
qed

end
